theory Spec2Isabelle
  imports Main
begin

section \<open>Tokens (include/lexer/token.hpp)\<close>

text \<open>
  The enumeration \<open>TokenType\<close> of token.hpp, in the order of the header. The last two
  constructors, \<open>TRUE\<close> and \<open>FALSE\<close>, are not declared by token.hpp: parser.cpp refers to
  \<open>lexer::TokenType::TRUE\<close> and \<open>lexer::TokenType::FALSE\<close> in \<open>Parser::primary\<close>, so they are
  added here as token types that the tokenizer never produces.
\<close>

datatype TokenType =
    IDENTIFIER | STRING | INTEGER | FLOAT | BOOLEAN | NONE
  | PLUS | MINUS | MULTIPLY | DIVIDE | FLOOR_DIVIDE | MODULO | POWER
  | EQUAL | NOT_EQUAL | LESS | LESS_EQUAL | GREATER | GREATER_EQUAL
  | AND | OR | NOT
  | ASSIGN
  | LPAREN | RPAREN | LBRACKET | RBRACKET | LBRACE | RBRACE | COMMA | COLON | DOT
  | IF | ELIF | ELSE | WHILE | FOR | IN | DEF | CLASS | RETURN | IMPORT | AS | MATCH
  | ASYNC | AWAIT
  | INDENT | DEDENT | NEWLINE | EOF_TOKEN
  | COMMENT
  | TRUE | FALSE

text \<open>A C++ \<open>double\<close>, kept as its 64-bit IEEE-754 pattern; no arithmetic is done on it.\<close>

datatype double = IEEE754 nat

text \<open>\<open>std::variant<std::string, int64_t, double, bool, std::monostate>\<close>\<close>

datatype Variant = VString string | VInt64 int | VDouble double | VBool bool | VMonostate

record Token =
  type :: TokenType
  lexeme :: string
  "value" :: Variant
  line :: nat
  column :: nat

text \<open>\<open>Token::getInteger\<close>, \<open>getFloat\<close>, \<open>getString\<close>, \<open>getBoolean\<close>.\<close>

definition getInteger :: "Token \<Rightarrow> int option" where
  "getInteger t = (case value t of VInt64 i \<Rightarrow> Some i | _ \<Rightarrow> None)"

definition getFloat :: "Token \<Rightarrow> double option" where
  "getFloat t = (case value t of VDouble d \<Rightarrow> Some d | _ \<Rightarrow> None)"

definition getString :: "Token \<Rightarrow> string option" where
  "getString t = (case value t of VString s \<Rightarrow> Some s | _ \<Rightarrow> None)"

definition getBoolean :: "Token \<Rightarrow> bool option" where
  "getBoolean t = (case value t of VBool b \<Rightarrow> Some b | _ \<Rightarrow> None)"

section \<open>The tokenizer (src/lexer/tokenizer.cpp)\<close>

text \<open>
  The fields of class \<open>Tokenizer\<close>. The \<open>size_t\<close> fields are natural numbers; the one
  subtraction of the source that can wrap (\<open>column - (current - start)\<close> in \<open>makeToken\<close>, when
  the token spans a newline) is \<open>size_t_sub\<close>: for operands below \<open>2^64\<close> it is the
  difference modulo \<open>2^64\<close>.
\<close>

record Tokenizer =
  source :: string
  current :: nat
  start :: nat
  line :: nat
  column :: nat
  indent_stack :: "nat list"

text \<open>What \<open>nextToken\<close> throws: the \<open>std::runtime_error\<close>s of tokenizer.cpp with the line they
  report, and the \<open>std::out_of_range\<close> of \<open>std::stoll\<close> and \<open>std::stod\<close>.\<close>

datatype LexError =
    UnterminatedString nat
  | InvalidIndentation nat
  | UnexpectedCharacter char nat
  | StollOutOfRange
  | StodOutOfRange

definition size_t_sub :: "nat \<Rightarrow> nat \<Rightarrow> nat" where
  "size_t_sub a b = (if b \<le> a then a - b else a + 2 ^ 64 - b)"

text \<open>\<open>std::string::substr(pos, n)\<close> for \<open>pos\<close> within the string.\<close>

definition substr :: "string \<Rightarrow> nat \<Rightarrow> nat \<Rightarrow> string" where
  "substr s pos n = take n (drop pos s)"

text \<open>The \<open><cctype>\<close> classes in the C locale; bytes from 128 up are in none of them.\<close>

definition isspace :: "char \<Rightarrow> bool" where
  "isspace c = (c \<in> set [CHR 0x20, CHR 0x09, CHR 0x0A, CHR 0x0B, CHR 0x0C, CHR 0x0D])"

definition isdigit :: "char \<Rightarrow> bool" where
  "isdigit c = (c \<in> set ''0123456789'')"

definition isalpha :: "char \<Rightarrow> bool" where
  "isalpha c = (c \<in> set ''abcdefghijklmnopqrstuvwxyzABCDEFGHIJKLMNOPQRSTUVWXYZ'')"

definition isalnum :: "char \<Rightarrow> bool" where
  "isalnum c = (isalpha c \<or> isdigit c)"

text \<open>\<open>std::stoll\<close> on the text \<open>number\<close> hands it: a non-empty run of decimal digits. It
  throws \<open>std::out_of_range\<close> (\<open>None\<close>) when the value does not fit \<open>int64_t\<close>.\<close>

definition stoll :: "string \<Rightarrow> int option" where
  "stoll text =
     (let v = foldl (\<lambda>a c. 10 * a + (of_char c - 48)) (0::int) text
      in if v > 9223372036854775807 then None else Some v)"

text \<open>The static keyword table \<open>Tokenizer::keywords\<close> (the name is reserved in theory headers).\<close>

definition keywords_map :: "(string \<times> TokenType) list" where
  "keywords_map =
    [(''if'', IF), (''elif'', ELIF), (''else'', ELSE), (''while'', WHILE), (''for'', FOR),
     (''in'', IN), (''def'', DEF), (''class'', CLASS), (''return'', RETURN),
     (''import'', IMPORT), (''as'', AS), (''match'', MATCH), (''async'', ASYNC),
     (''await'', AWAIT), (''and'', AND), (''or'', OR), (''not'', NOT)]"

subsection \<open>Helper methods\<close>

definition isAtEnd :: "Tokenizer \<Rightarrow> bool" where
  "isAtEnd s = (current s \<ge> length (source s))"

definition advance :: "Tokenizer \<Rightarrow> char \<times> Tokenizer" where
  "advance s =
     (if isAtEnd s then (CHR 0x00, s)
      else let c = source s ! current s;
               s1 = s\<lparr>current := current s + 1\<rparr>
           in if c = CHR 0x0A then (c, s1\<lparr>line := Tokenizer.line s1 + 1, column := 0\<rparr>)
              else (c, s1\<lparr>column := Tokenizer.column s1 + 1\<rparr>))"

definition peek :: "Tokenizer \<Rightarrow> char" where
  "peek s = (if isAtEnd s then CHR 0x00 else source s ! current s)"

definition peekNext :: "Tokenizer \<Rightarrow> char" where
  "peekNext s =
     (if current s + 1 \<ge> length (source s) then CHR 0x00 else source s ! (current s + 1))"

definition match :: "char \<Rightarrow> Tokenizer \<Rightarrow> bool \<times> Tokenizer" where
  "match expected s =
     (if isAtEnd s then (False, s)
      else if source s ! current s \<noteq> expected then (False, s)
      else (True, s\<lparr>current := current s + 1, column := Tokenizer.column s + 1\<rparr>))"

function skipWhitespace :: "Tokenizer \<Rightarrow> Tokenizer" where
  "skipWhitespace s =
     (if \<not> isAtEnd s \<and> isspace (peek s) \<and> peek s \<noteq> CHR 0x0A
      then skipWhitespace (snd (advance s)) else s)"
  by pat_completeness auto
termination
  by (relation "measure (\<lambda>s. length (source s) - current s)")
     (auto simp: advance_def isAtEnd_def Let_def)

function skipComment :: "Tokenizer \<Rightarrow> Tokenizer" where
  "skipComment s =
     (if \<not> isAtEnd s \<and> peek s \<noteq> CHR 0x0A then skipComment (snd (advance s)) else s)"
  by pat_completeness auto
termination
  by (relation "measure (\<lambda>s. length (source s) - current s)")
     (auto simp: advance_def isAtEnd_def Let_def)

definition makeToken :: "TokenType \<Rightarrow> Tokenizer \<Rightarrow> Token" where
  "makeToken ty s =
     \<lparr>type = ty, lexeme = substr (source s) (start s) (current s - start s),
      value = VMonostate, line = Tokenizer.line s,
      column = size_t_sub (Tokenizer.column s) (current s - start s)\<rparr>"

definition makeToken_value :: "TokenType \<Rightarrow> Variant \<Rightarrow> Tokenizer \<Rightarrow> Token" where
  "makeToken_value ty v s =
     \<lparr>type = ty, lexeme = substr (source s) (start s) (current s - start s),
      value = v, line = Tokenizer.line s,
      column = size_t_sub (Tokenizer.column s) (current s - start s)\<rparr>"

subsection \<open>Token parsing methods\<close>

text \<open>The loop of \<open>Tokenizer::string\<close>; \<open>CHR 0x5C\<close> is the backslash.\<close>

function string_loop :: "char \<Rightarrow> Tokenizer \<Rightarrow> Tokenizer" where
  "string_loop quote s =
     (if \<not> isAtEnd s \<and> peek s \<noteq> quote then
        (if peek s = CHR 0x5C then
           (let s1 = snd (advance s)
            in string_loop quote (if \<not> isAtEnd s1 then snd (advance s1) else s1))
         else string_loop quote (snd (advance s)))
      else s)"
  by pat_completeness auto
termination
  by (relation "measure (\<lambda>(q, s). length (source s) - current s)")
     (auto simp: advance_def isAtEnd_def Let_def)

definition string :: "Tokenizer \<Rightarrow> LexError + (Token \<times> Tokenizer)" where
  "string s0 =
     (let quote = peek s0;
          s1 = snd (advance s0);
          s2 = string_loop quote s1
      in if isAtEnd s2 then Inl (UnterminatedString (Tokenizer.line s2))
         else let s3 = snd (advance s2);
                  v = substr (source s3) (start s3 + 1) (current s3 - start s3 - 2)
              in Inr (makeToken_value STRING (VString v) s3, s3))"

function digits_loop :: "Tokenizer \<Rightarrow> Tokenizer" where
  "digits_loop s =
     (if \<not> isAtEnd s \<and> isdigit (peek s) then digits_loop (snd (advance s)) else s)"
  by pat_completeness auto
termination
  by (relation "measure (\<lambda>s. length (source s) - current s)")
     (auto simp: advance_def isAtEnd_def Let_def)

text \<open>\<open>Tokenizer::number\<close>. \<open>std::stod\<close> is a parameter: it gives the double of a text
  \<open>digits.digits\<close>, or \<open>None\<close> where it throws \<open>std::out_of_range\<close>.\<close>

definition number ::
  "(string \<Rightarrow> double option) \<Rightarrow> Tokenizer \<Rightarrow> LexError + (Token \<times> Tokenizer)" where
  "number stod s0 =
     (let s1 = digits_loop s0
      in if \<not> isAtEnd s1 \<and> peek s1 = CHR ''.'' \<and> isdigit (peekNext s1) then
           (let s2 = snd (advance s1);
                s3 = digits_loop s2
            in case stod (substr (source s3) (start s3) (current s3 - start s3)) of
                 None \<Rightarrow> Inl StodOutOfRange
               | Some d \<Rightarrow> Inr (makeToken_value FLOAT (VDouble d) s3, s3))
         else
           (case stoll (substr (source s1) (start s1) (current s1 - start s1)) of
              None \<Rightarrow> Inl StollOutOfRange
            | Some i \<Rightarrow> Inr (makeToken_value INTEGER (VInt64 i) s1, s1)))"

function identifier_loop :: "Tokenizer \<Rightarrow> Tokenizer" where
  "identifier_loop s =
     (if \<not> isAtEnd s \<and> (isalnum (peek s) \<or> peek s = CHR ''_'')
      then identifier_loop (snd (advance s)) else s)"
  by pat_completeness auto
termination
  by (relation "measure (\<lambda>s. length (source s) - current s)")
     (auto simp: advance_def isAtEnd_def Let_def)

definition identifier_tok :: "Tokenizer \<Rightarrow> Token \<times> Tokenizer" where
  "identifier_tok s0 =
     (let s = identifier_loop s0;
          text = substr (source s) (start s) (current s - start s)
      in case map_of keywords_map text of
           Some ty \<Rightarrow> (makeToken ty s, s)
         | None \<Rightarrow>
             if text = ''True'' then (makeToken_value BOOLEAN (VBool True) s, s)
             else if text = ''False'' then (makeToken_value BOOLEAN (VBool False) s, s)
             else if text = ''None'' then (makeToken NONE s, s)
             else (makeToken IDENTIFIER s, s))"

text \<open>(\<open>identifier_tok\<close> above is \<open>Tokenizer::identifier\<close>; the bare name is reserved.)
  The counting loop of \<open>handleIndentation\<close> over \<open>temp_current\<close>.\<close>

function count_indent :: "string \<Rightarrow> nat \<Rightarrow> nat \<Rightarrow> nat" where
  "count_indent src temp_current indent_level =
     (if temp_current < length src \<and> src ! temp_current = CHR '' ''
      then count_indent src (temp_current + 1) (indent_level + 1) else indent_level)"
  by pat_completeness auto
termination
  by (relation "measure (\<lambda>(src, i, n). length src - i)") auto

text \<open>The popping loop of \<open>handleIndentation\<close>: the stack's top is the last element, as
  \<open>std::vector::back\<close>; the result is the stack left and the DEDENT tokens collected.\<close>

function dedent_loop ::
  "nat \<Rightarrow> Token \<Rightarrow> nat list \<Rightarrow> Token list \<Rightarrow> nat list \<times> Token list" where
  "dedent_loop spaces tok stack dedent_tokens =
     (if stack \<noteq> [] \<and> last stack > spaces
      then dedent_loop spaces tok (butlast stack) (dedent_tokens @ [tok])
      else (stack, dedent_tokens))"
  by pat_completeness auto
termination
  by (relation "measure (\<lambda>(sp, t, st, d). length st)") auto

definition handleIndentation :: "Tokenizer \<Rightarrow> LexError + (Token \<times> Tokenizer)" where
  "handleIndentation s =
     (let indent_level = count_indent (source s) (current s) 0
      in if indent_level mod 4 \<noteq> 0 then Inl (InvalidIndentation (Tokenizer.line s))
         else
           let spaces = indent_level div 4
           in if indent_stack s = [] \<or> spaces > last (indent_stack s) then
                Inr (\<lparr>type = INDENT, lexeme = [], value = VMonostate,
                      line = Tokenizer.line s, column = Tokenizer.column s\<rparr>,
                     s\<lparr>indent_stack := indent_stack s @ [spaces]\<rparr>)
              else if spaces < last (indent_stack s) then
                (let (stack, dedent_tokens) =
                       dedent_loop spaces
                         \<lparr>type = DEDENT, lexeme = [], value = VMonostate,
                          line = Tokenizer.line s, column = Tokenizer.column s\<rparr>
                         (indent_stack s) []
                 in if stack = [] \<or> last stack \<noteq> spaces
                    then Inl (InvalidIndentation (Tokenizer.line s))
                    else Inr (hd dedent_tokens, s\<lparr>indent_stack := stack\<rparr>))
              else
                Inr (\<lparr>type = NEWLINE, lexeme = [], value = VMonostate,
                      line = Tokenizer.line s, column = Tokenizer.column s\<rparr>, s))"

subsection \<open>The public interface\<close>

definition Tokenizer_init :: "string \<Rightarrow> Tokenizer" where
  "Tokenizer_init src =
     \<lparr>source = src, current = 0, start = 0, line = 1, column = 0, indent_stack = [0]\<rparr>"

text \<open>The operator and delimiter \<open>switch\<close> of \<open>nextToken\<close>; a \<open>!\<close> with no \<open>=\<close> after it
  breaks out of the switch and reaches the final \<open>throw\<close>, as any other character does.\<close>

definition operator_token :: "char \<Rightarrow> Tokenizer \<Rightarrow> LexError + (Token \<times> Tokenizer)" where
  "operator_token c s =
     (if c = CHR ''('' then Inr (makeToken LPAREN s, s)
      else if c = CHR '')'' then Inr (makeToken RPAREN s, s)
      else if c = CHR ''['' then Inr (makeToken LBRACKET s, s)
      else if c = CHR '']'' then Inr (makeToken RBRACKET s, s)
      else if c = CHR ''{'' then Inr (makeToken LBRACE s, s)
      else if c = CHR ''}'' then Inr (makeToken RBRACE s, s)
      else if c = CHR '','' then Inr (makeToken COMMA s, s)
      else if c = CHR ''.'' then Inr (makeToken DOT s, s)
      else if c = CHR '':'' then Inr (makeToken COLON s, s)
      else if c = CHR ''='' then
        (let (m, s') = match (CHR ''='') s
         in if m then Inr (makeToken EQUAL s', s') else Inr (makeToken ASSIGN s', s'))
      else if c = CHR ''!'' then
        (let (m, s') = match (CHR ''='') s
         in if m then Inr (makeToken NOT_EQUAL s', s')
            else Inl (UnexpectedCharacter c (Tokenizer.line s')))
      else if c = CHR ''<'' then
        (let (m, s') = match (CHR ''='') s
         in if m then Inr (makeToken LESS_EQUAL s', s') else Inr (makeToken LESS s', s'))
      else if c = CHR ''>'' then
        (let (m, s') = match (CHR ''='') s
         in if m then Inr (makeToken GREATER_EQUAL s', s') else Inr (makeToken GREATER s', s'))
      else if c = CHR ''+'' then Inr (makeToken PLUS s, s)
      else if c = CHR ''-'' then Inr (makeToken MINUS s, s)
      else if c = CHR ''*'' then
        (let (m, s') = match (CHR ''*'') s
         in if m then Inr (makeToken POWER s', s') else Inr (makeToken MULTIPLY s', s'))
      else if c = CHR ''/'' then
        (let (m, s') = match (CHR ''/'') s
         in if m then Inr (makeToken FLOOR_DIVIDE s', s') else Inr (makeToken DIVIDE s', s'))
      else if c = CHR ''%'' then Inr (makeToken MODULO s, s)
      else Inl (UnexpectedCharacter c (Tokenizer.line s)))"

text \<open>\<open>CHR 0x22\<close> is the double quote, \<open>CHR 0x27\<close> the single quote, \<open>CHR 0x23\<close> the hash.\<close>

definition nextToken ::
  "(string \<Rightarrow> double option) \<Rightarrow> Tokenizer \<Rightarrow> LexError + (Token \<times> Tokenizer)" where
  "nextToken stod s0 =
     (let s1 = skipWhitespace s0
      in if isAtEnd s1 then
           Inr (\<lparr>type = EOF_TOKEN, lexeme = [], value = VMonostate,
                 line = Tokenizer.line s1, column = Tokenizer.column s1\<rparr>, s1)
         else
           let s2 = s1\<lparr>start := current s1\<rparr>;
               (c, s) = advance s2
           in if c = CHR 0x0A then handleIndentation s
              else if c = CHR 0x23 then
                (let s' = skipComment s in Inr (makeToken COMMENT s', s'))
              else if c = CHR 0x22 \<or> c = CHR 0x27 then
                string (s\<lparr>current := start s, column := size_t_sub (Tokenizer.column s) 1\<rparr>)
              else if isdigit c then
                number stod
                  (s\<lparr>current := start s, column := size_t_sub (Tokenizer.column s) 1\<rparr>)
              else if isalpha c \<or> c = CHR ''_'' then
                Inr (identifier_tok
                  (s\<lparr>current := start s, column := size_t_sub (Tokenizer.column s) 1\<rparr>))
              else operator_token c s)"

subsection \<open>Progress of the scanning loops\<close>

text \<open>The loops only move \<open>current\<close> forward and leave the source text, \<open>start\<close> and the
  indentation stack alone.\<close>

declare skipWhitespace.simps [simp del] skipComment.simps [simp del] string_loop.simps [simp del]
  digits_loop.simps [simp del] identifier_loop.simps [simp del] count_indent.simps [simp del]
  dedent_loop.simps [simp del]

definition extends :: "Tokenizer \<Rightarrow> Tokenizer \<Rightarrow> bool" where
  "extends s s' =
     (source s' = source s \<and> start s' = start s \<and> indent_stack s' = indent_stack s \<and>
      current s \<le> current s')"

lemma extends_refl: "extends s s"
  by (simp add: extends_def)

lemma extends_trans: "extends a b \<Longrightarrow> extends b c \<Longrightarrow> extends a c"
  by (simp add: extends_def)

lemma advance_extends: "extends s (snd (advance s))"
  by (simp add: extends_def advance_def Let_def)

lemma advance_current:
  "\<not> isAtEnd s \<Longrightarrow> current (snd (advance s)) = current s + 1"
  by (simp add: advance_def Let_def)

lemma advance_fst: "\<not> isAtEnd s \<Longrightarrow> fst (advance s) = source s ! current s"
  by (simp add: advance_def Let_def)

lemma skipWhitespace_extends: "extends s (skipWhitespace s)"
proof (induction s rule: skipWhitespace.induct)
  case (1 s)
  show ?case
  proof (cases "\<not> isAtEnd s \<and> isspace (peek s) \<and> peek s \<noteq> CHR 0x0A")
    case True
    then have "extends (snd (advance s)) (skipWhitespace s)"
      using "1.IH" by (simp add: skipWhitespace.simps [of s])
    then show ?thesis using advance_extends extends_trans by blast
  next
    case False
    then show ?thesis by (auto simp: skipWhitespace.simps [of s] extends_refl)
  qed
qed

lemma skipComment_extends: "extends s (skipComment s)"
proof (induction s rule: skipComment.induct)
  case (1 s)
  show ?case
  proof (cases "\<not> isAtEnd s \<and> peek s \<noteq> CHR 0x0A")
    case True
    then have "extends (snd (advance s)) (skipComment s)"
      using "1.IH" by (simp add: skipComment.simps [of s])
    then show ?thesis using advance_extends extends_trans by blast
  next
    case False
    then show ?thesis by (auto simp: skipComment.simps [of s] extends_refl)
  qed
qed

lemma digits_loop_extends: "extends s (digits_loop s)"
proof (induction s rule: digits_loop.induct)
  case (1 s)
  show ?case
  proof (cases "\<not> isAtEnd s \<and> isdigit (peek s)")
    case True
    then have "extends (snd (advance s)) (digits_loop s)"
      using "1.IH" by (simp add: digits_loop.simps [of s])
    then show ?thesis using advance_extends extends_trans by blast
  next
    case False
    then show ?thesis by (auto simp: digits_loop.simps [of s] extends_refl)
  qed
qed

lemma identifier_loop_extends: "extends s (identifier_loop s)"
proof (induction s rule: identifier_loop.induct)
  case (1 s)
  show ?case
  proof (cases "\<not> isAtEnd s \<and> (isalnum (peek s) \<or> peek s = CHR ''_'')")
    case True
    then have "extends (snd (advance s)) (identifier_loop s)"
      using "1.IH" by (simp add: identifier_loop.simps [of s])
    then show ?thesis using advance_extends extends_trans by blast
  next
    case False
    then show ?thesis by (auto simp: identifier_loop.simps [of s] extends_refl)
  qed
qed

lemma string_loop_extends: "extends s (string_loop q s)"
proof (induction q s rule: string_loop.induct)
  case (1 q s)
  show ?case
  proof (cases "\<not> isAtEnd s \<and> peek s \<noteq> q")
    case True
    note go = True
    show ?thesis
    proof (cases "peek s = CHR 0x5C")
      case True
      let ?s1 = "snd (advance s)"
      let ?s2 = "if \<not> isAtEnd ?s1 then snd (advance ?s1) else ?s1"
      have "extends ?s2 (string_loop q ?s2)"
        using "1.IH"(1) go True by simp
      moreover have "string_loop q s = string_loop q ?s2"
        using go True by (simp add: string_loop.simps [of q s] Let_def)
      moreover have "extends s ?s2"
        using advance_extends extends_trans extends_refl by (metis (full_types))
      ultimately show ?thesis using extends_trans by metis
    next
      case False
      then have "extends (snd (advance s)) (string_loop q s)"
        using "1.IH"(2) go by (simp add: string_loop.simps [of q s])
      then show ?thesis using advance_extends extends_trans by blast
    qed
  next
    case False
    then show ?thesis by (auto simp: string_loop.simps [of q s] extends_refl)
  qed
qed

lemma match_extends: "extends s (snd (match c s))"
  by (simp add: extends_def match_def)

lemma digits_loop_progress:
  "\<not> isAtEnd s \<Longrightarrow> isdigit (peek s) \<Longrightarrow> current s < current (digits_loop s)"
proof -
  assume a: "\<not> isAtEnd s" "isdigit (peek s)"
  then have "digits_loop s = digits_loop (snd (advance s))"
    by (simp add: digits_loop.simps [of s])
  moreover have "current (snd (advance s)) \<le> current (digits_loop (snd (advance s)))"
    using digits_loop_extends by (simp add: extends_def)
  ultimately show ?thesis using a advance_current by simp
qed

lemma identifier_loop_progress:
  "\<not> isAtEnd s \<Longrightarrow> isalnum (peek s) \<or> peek s = CHR ''_'' \<Longrightarrow>
   current s < current (identifier_loop s)"
proof -
  assume a: "\<not> isAtEnd s" "isalnum (peek s) \<or> peek s = CHR ''_''"
  then have "identifier_loop s = identifier_loop (snd (advance s))"
    by (simp add: identifier_loop.simps [of s])
  moreover have "current (snd (advance s)) \<le> current (identifier_loop (snd (advance s)))"
    using identifier_loop_extends by (simp add: extends_def)
  ultimately show ?thesis using a advance_current by simp
qed

lemma string_extends:
  assumes "string s0 = Inr (t, s')"
  shows "extends s0 s'" and "\<not> isAtEnd s0 \<Longrightarrow> current s0 < current s'"
proof -
  let ?s1 = "snd (advance s0)"
  let ?s2 = "string_loop (peek s0) ?s1"
  from assms have s': "s' = snd (advance ?s2)"
    by (auto simp: string_def Let_def split: if_splits)
  have e: "extends s0 ?s1" "extends ?s1 ?s2" "extends ?s2 s'"
    using advance_extends string_loop_extends s' by simp_all
  then show "extends s0 s'" using extends_trans by blast
  show "current s0 < current s'" if "\<not> isAtEnd s0"
    using that e advance_current [of s0] by (simp add: extends_def)
qed

lemma number_extends:
  assumes "number stod s0 = Inr (t, s')"
  shows "extends s0 s'"
    and "\<not> isAtEnd s0 \<Longrightarrow> isdigit (peek s0) \<Longrightarrow> current s0 < current s'"
proof -
  let ?s1 = "digits_loop s0"
  let ?s3 = "digits_loop (snd (advance ?s1))"
  from assms have s': "s' = ?s1 \<or> s' = ?s3"
    by (auto simp: number_def Let_def split: if_splits option.splits)
  have e: "extends s0 ?s1" "extends ?s1 ?s3"
    using digits_loop_extends advance_extends extends_trans by blast+
  then show "extends s0 s'" using s' extends_trans by blast
  show "current s0 < current s'" if "\<not> isAtEnd s0" "isdigit (peek s0)"
    using that digits_loop_progress [of s0] e s' by (auto simp: extends_def)
qed

lemma identifier_tok_snd: "snd (identifier_tok s0) = identifier_loop s0"
  by (simp add: identifier_tok_def Let_def split: option.splits)

lemma handleIndentation_frame:
  assumes "handleIndentation s = Inr (t, s')"
  shows "source s' = source s \<and> current s' = current s \<and> start s' = start s"
  using assms
  by (auto simp: handleIndentation_def Let_def split: if_splits prod.splits)

lemma operator_token_extends:
  assumes "operator_token c s = Inr (t, s')"
  shows "extends s s'"
proof -
  have "s' = s \<or> s' = snd (match (CHR ''='') s) \<or> s' = snd (match (CHR ''*'') s)
      \<or> s' = snd (match (CHR ''/'') s)"
    using assms by (auto simp: operator_token_def Let_def split: if_splits prod.splits)
  then show ?thesis using match_extends extends_refl by metis
qed

lemma isalpha_isalnum: "isalpha c \<Longrightarrow> isalnum c"
  by (simp add: isalnum_def)

lemma nextToken_progress:
  assumes "nextToken stod s = Inr (t, s')" and "type t \<noteq> EOF_TOKEN"
  shows "source s' = source s \<and> current s < current s' \<and> current s < length (source s)"
proof -
  let ?s1 = "skipWhitespace s"
  have e1: "extends s ?s1" by (rule skipWhitespace_extends)
  have ne: "\<not> isAtEnd ?s1"
    using assms by (auto simp: nextToken_def Let_def)
  let ?s2 = "?s1\<lparr>start := current ?s1\<rparr>"
  obtain c sa where adv: "advance ?s2 = (c, sa)" by (cases "advance ?s2")
  have ne2: "\<not> isAtEnd ?s2" using ne by (simp add: isAtEnd_def)
  have sa: "source sa = source s" "current sa = current ?s1 + 1" "start sa = current ?s1"
    using adv advance_extends [of ?s2] advance_current [OF ne2] e1
    by (simp_all add: extends_def)
  have c: "c = source s ! current ?s1"
    using adv advance_fst [OF ne2] e1 by (simp add: extends_def)
  let ?r = "sa\<lparr>current := start sa, column := size_t_sub (Tokenizer.column sa) 1\<rparr>"
  have r: "source ?r = source s" "current ?r = current ?s1" "\<not> isAtEnd ?r" "peek ?r = c"
    using sa c ne e1 by (simp_all add: isAtEnd_def peek_def extends_def)
  have lt: "current s < length (source s)"
    using ne e1 by (simp add: isAtEnd_def extends_def)
  have le: "current s \<le> current ?s1" using e1 by (simp add: extends_def)
  from assms(1) ne adv have
    "handleIndentation sa = Inr (t, s') \<or>
     s' = skipComment sa \<or>
     string ?r = Inr (t, s') \<or>
     (isdigit c \<and> number stod ?r = Inr (t, s')) \<or>
     ((isalpha c \<or> c = CHR ''_'') \<and> s' = snd (identifier_tok ?r)) \<or>
     operator_token c sa = Inr (t, s')"
    by (auto simp: nextToken_def Let_def split: if_splits)
  then consider
      (ind) "handleIndentation sa = Inr (t, s')"
    | (com) "s' = skipComment sa"
    | (str) "string ?r = Inr (t, s')"
    | (num) "isdigit c" "number stod ?r = Inr (t, s')"
    | (idn) "isalpha c \<or> c = CHR ''_''" "s' = snd (identifier_tok ?r)"
    | (opr) "operator_token c sa = Inr (t, s')"
    by blast
  then have "source s' = source s \<and> current ?s1 < current s'"
  proof cases
    case ind
    then show ?thesis using handleIndentation_frame sa by fastforce
  next
    case com
    then show ?thesis using skipComment_extends [of sa] sa by (simp add: extends_def)
  next
    case str
    then show ?thesis using string_extends [OF str] r by (simp add: extends_def)
  next
    case num
    then show ?thesis using number_extends [OF num(2)] r by (simp add: extends_def)
  next
    case idn
    then have "isalnum (peek ?r) \<or> peek ?r = CHR ''_''"
      using r(4) isalpha_isalnum by blast
    then show ?thesis
      using identifier_loop_progress [OF r(3)] identifier_loop_extends [of ?r] idn(2) r
      by (simp add: identifier_tok_snd extends_def)
  next
    case opr
    then show ?thesis using operator_token_extends [OF opr] sa by (simp add: extends_def)
  qed
  then show ?thesis using lt le by simp
qed

subsection \<open>The whole token stream\<close>

text \<open>\<open>Tokenizer::tokenize\<close>: the \<open>do ... while\<close> loop over \<open>nextToken\<close>, with the vector \<open>tokens\<close>
  as accumulator. It terminates because every call of \<open>nextToken\<close> that returns a token other
  than EOF moves \<open>current\<close> forward.\<close>

function tokenize_loop ::
  "(string \<Rightarrow> double option) \<Rightarrow> Tokenizer \<Rightarrow> Token list \<Rightarrow>
   LexError + Token list \<times> Tokenizer" where
  "tokenize_loop stod s tokens =
     (case nextToken stod s of
        Inl e \<Rightarrow> Inl e
      | Inr (token, s') \<Rightarrow>
          if type token \<noteq> EOF_TOKEN then tokenize_loop stod s' (tokens @ [token])
          else Inr (tokens @ [token], s'))"
  by pat_completeness auto
termination
proof (relation "measure (\<lambda>(stod, s, tokens). length (source s) - current s)")
  show "wf (measure (\<lambda>(stod, s, tokens). length (source s) - current s))" by simp
next
  fix stod s tokens x2 token s'
  assume "nextToken stod s = Inr x2" "(token, s') = x2" "type token \<noteq> EOF_TOKEN"
  then have "source s' = source s \<and> current s < current s' \<and> current s < length (source s)"
    using nextToken_progress [of stod s token s'] by simp
  then show "((stod, s', tokens @ [token]), (stod, s, tokens))
      \<in> measure (\<lambda>(stod, s, tokens). length (source s) - current s)"
    by (auto intro: diff_less_mono2)
qed

declare tokenize_loop.simps [simp del]

definition tokenize ::
  "(string \<Rightarrow> double option) \<Rightarrow> Tokenizer \<Rightarrow> LexError + Token list \<times> Tokenizer" where
  "tokenize stod s = tokenize_loop stod s []"

text \<open>Construct a tokenizer on a source text and tokenize it, as \<open>main\<close> does.\<close>

definition tokenize_source :: "(string \<Rightarrow> double option) \<Rightarrow> string \<Rightarrow> LexError + Token list" where
  "tokenize_source stod src = map_sum id fst (tokenize stod (Tokenizer_init src))"

section \<open>The syntax tree (include/parser/ast.hpp)\<close>

text \<open>\<open>BinaryExpression::Operator\<close> and \<open>UnaryExpression::Operator\<close>; the constructors carry a
  prefix because several of them share their name with a token type.\<close>

datatype BinaryOperator =
    BinOp_ADD | BinOp_SUBTRACT | BinOp_MULTIPLY | BinOp_DIVIDE | BinOp_FLOOR_DIVIDE
  | BinOp_MODULO | BinOp_POWER
  | BinOp_EQUAL | BinOp_NOT_EQUAL | BinOp_LESS | BinOp_LESS_EQUAL | BinOp_GREATER
  | BinOp_GREATER_EQUAL
  | BinOp_AND | BinOp_OR

datatype UnaryOperator = UnOp_PLUS | UnOp_MINUS | UnOp_NOT

text \<open>The expression classes. Every child pointer the parser builds is non-null, so children
  are plain subterms.\<close>

datatype Expression =
    LiteralExpression Variant
  | IdentifierExpression string
  | BinaryExpression BinaryOperator Expression Expression
  | UnaryExpression UnaryOperator Expression
  | CallExpression Expression "Expression list"
  | AttributeExpression Expression string
  | SubscriptExpression Expression Expression
  | ListExpression "Expression list"
  | DictExpression "(Expression \<times> Expression) list"
  | TupleExpression "Expression list"

text \<open>The statement classes; the value of a \<open>ReturnStatement\<close> may be the null pointer. An
  \<open>IfStatement\<close> holds its branches (condition, body) in order and its else body.\<close>

datatype Statement =
    AssignmentStatement string Expression
  | ExpressionStatement Expression
  | ReturnStatement "Expression option"
  | IfStatement "(Expression \<times> Statement list) list" "Statement list"
  | WhileStatement Expression "Statement list"
  | ForStatement string Expression "Statement list"
  | MatchStatement Expression "(Expression \<times> Statement list) list"

text \<open>The declaration classes: function (name, parameters, body, is_async), class (name,
  base class, members) and import (module, alias).\<close>

datatype Declaration =
    FunctionDeclaration string "string list" "Statement list" bool
  | ClassDeclaration string string "Declaration list"
  | ImportDeclaration string string

record Program =
  declarations :: "Declaration list"
  statements :: "Statement list"

section \<open>The parser (src/parser/parser.cpp)\<close>

text \<open>
  The parser's state is the token vector \<open>tokens\<close>, which never changes, and the cursor
  \<open>current\<close>; every parsing method takes both and returns the new cursor with its result.
  \<open>Parser::error\<close> throws a \<open>std::runtime_error\<close> that carries the line and column of a token
  and a message. The methods call each other recursively, so each takes a bound on the
  depth of calls still allowed and gives \<open>FuelExhausted\<close> when it is used up; a result
  other than \<open>FuelExhausted\<close> is the result of the C++ method.
\<close>

datatype ParseError = ErrorAt nat nat string | FuelExhausted

type_synonym 'a parse_result = "ParseError + ('a \<times> nat)"

definition error :: "Token \<Rightarrow> string \<Rightarrow> ParseError + 'a" where
  "error token message = Inl (ErrorAt (Token.line token) (Token.column token) message)"

text \<open>The helper methods of parser.hpp and parser.cpp; those that share their name with a
  method of the tokenizer carry the prefix \<open>Parser_\<close>.\<close>

definition Parser_isAtEnd :: "Token list \<Rightarrow> nat \<Rightarrow> bool" where
  "Parser_isAtEnd tokens cur = (cur \<ge> length tokens)"

definition Parser_peek :: "Token list \<Rightarrow> nat \<Rightarrow> Token" where
  "Parser_peek tokens cur = (if Parser_isAtEnd tokens cur then last tokens else tokens ! cur)"

definition Parser_advance :: "Token list \<Rightarrow> nat \<Rightarrow> Token \<times> nat" where
  "Parser_advance tokens cur =
     (if Parser_isAtEnd tokens cur then (last tokens, cur) else (tokens ! cur, cur + 1))"

definition check :: "Token list \<Rightarrow> TokenType \<Rightarrow> nat \<Rightarrow> bool" where
  "check tokens ty cur =
     (if Parser_isAtEnd tokens cur then False else type (Parser_peek tokens cur) = ty)"

definition Parser_match :: "Token list \<Rightarrow> TokenType \<Rightarrow> nat \<Rightarrow> bool \<times> nat" where
  "Parser_match tokens ty cur =
     (if check tokens ty cur then (True, snd (Parser_advance tokens cur)) else (False, cur))"

definition consume :: "Token list \<Rightarrow> TokenType \<Rightarrow> string \<Rightarrow> nat \<Rightarrow> ParseError + nat" where
  "consume tokens ty message cur =
     (if check tokens ty cur then Inr (snd (Parser_advance tokens cur))
      else error (Parser_peek tokens cur) message)"

text \<open>A condition \<open>match(A) || match(B) || ...\<close>: the first type that matches is consumed.\<close>

fun match_any :: "Token list \<Rightarrow> TokenType list \<Rightarrow> nat \<Rightarrow> bool \<times> nat" where
  "match_any tokens [] cur = (False, cur)"
| "match_any tokens (ty # tys) cur =
     (case Parser_match tokens ty cur of
        (True, cur') \<Rightarrow> (True, cur')
      | (False, cur') \<Rightarrow> match_any tokens tys cur')"

text \<open>\<open>tokens[current - 1]\<close>, read after a successful \<open>match\<close> or \<open>consume\<close>.\<close>

definition previous :: "Token list \<Rightarrow> nat \<Rightarrow> Token" where
  "previous tokens cur = tokens ! (cur - 1)"

text \<open>The operator chosen from the operator token in \<open>comparison\<close> and in \<open>factor\<close>.\<close>

definition comparison_operator :: "TokenType \<Rightarrow> BinaryOperator" where
  "comparison_operator ty =
     (if ty = LESS then BinOp_LESS
      else if ty = LESS_EQUAL then BinOp_LESS_EQUAL
      else if ty = GREATER then BinOp_GREATER
      else if ty = GREATER_EQUAL then BinOp_GREATER_EQUAL
      else BinOp_LESS)"

definition factor_operator :: "TokenType \<Rightarrow> BinaryOperator" where
  "factor_operator ty =
     (if ty = MULTIPLY then BinOp_MULTIPLY
      else if ty = DIVIDE then BinOp_DIVIDE
      else if ty = FLOOR_DIVIDE then BinOp_FLOOR_DIVIDE
      else if ty = MODULO then BinOp_MODULO
      else BinOp_MULTIPLY)"

subsection \<open>Expressions\<close>

text \<open>
  One definition per method and one per loop (\<open>_loop\<close>, with the loop's variables as
  arguments). The methods are mutually recursive only through \<open>expression\<close>, which \<open>primary\<close>,
  \<open>finishCall\<close>, \<open>listExpression\<close> and \<open>dictExpression\<close> call: they take it as the argument
  \<open>rec_expression\<close>, and \<open>expression\<close> below closes the recursion. The natural number \<open>n\<close> bounds
  the iterations of every loop and the depth of nested calls of \<open>expression\<close> and \<open>unary\<close>.
\<close>

text \<open>The loop \<open>do { v.push_back(expression()); } while (match(COMMA));\<close> of \<open>finishCall\<close> and
  of \<open>listExpression\<close>.\<close>

primrec arguments_loop ::
  "(nat \<Rightarrow> Expression parse_result) \<Rightarrow> Token list \<Rightarrow> nat \<Rightarrow> Expression list \<Rightarrow> nat \<Rightarrow>
   (Expression list) parse_result" where
  "arguments_loop rec_expression tokens 0 arguments cur = Inl FuelExhausted"
| "arguments_loop rec_expression tokens (Suc n) arguments cur =
     (case rec_expression cur of
        Inl e \<Rightarrow> Inl e
      | Inr (arg, cur) \<Rightarrow>
          (case Parser_match tokens COMMA cur of
             (True, cur) \<Rightarrow> arguments_loop rec_expression tokens n (arguments @ [arg]) cur
           | (False, cur) \<Rightarrow> Inr (arguments @ [arg], cur)))"

definition finishCall ::
  "(nat \<Rightarrow> Expression parse_result) \<Rightarrow> Token list \<Rightarrow> nat \<Rightarrow> Expression \<Rightarrow> nat \<Rightarrow> Expression parse_result" where
  "finishCall rec_expression tokens n callee cur =
     (case (if \<not> check tokens RPAREN cur then arguments_loop rec_expression tokens n [] cur
            else Inr ([], cur)) of
        Inl e \<Rightarrow> Inl e
      | Inr (arguments, cur) \<Rightarrow>
          (case consume tokens RPAREN ''Expect ')' after arguments.'' cur of
             Inl e \<Rightarrow> Inl e
           | Inr cur \<Rightarrow> Inr (CallExpression callee arguments, cur)))"

definition listExpression ::
  "(nat \<Rightarrow> Expression parse_result) \<Rightarrow> Token list \<Rightarrow> nat \<Rightarrow> nat \<Rightarrow> Expression parse_result" where
  "listExpression rec_expression tokens n cur =
     (case (if \<not> check tokens RBRACKET cur then arguments_loop rec_expression tokens n [] cur
            else Inr ([], cur)) of
        Inl e \<Rightarrow> Inl e
      | Inr (elements, cur) \<Rightarrow>
          (case consume tokens RBRACKET ''Expect ']' after list elements.'' cur of
             Inl e \<Rightarrow> Inl e
           | Inr cur \<Rightarrow> Inr (ListExpression elements, cur)))"

primrec pairs_loop ::
  "(nat \<Rightarrow> Expression parse_result) \<Rightarrow> Token list \<Rightarrow> nat \<Rightarrow> (Expression \<times> Expression) list \<Rightarrow> nat \<Rightarrow>
   ((Expression \<times> Expression) list) parse_result" where
  "pairs_loop rec_expression tokens 0 pairs cur = Inl FuelExhausted"
| "pairs_loop rec_expression tokens (Suc n) pairs cur =
     (case rec_expression cur of
        Inl e \<Rightarrow> Inl e
      | Inr (key, cur) \<Rightarrow>
          (case consume tokens COLON ''Expect ':' after key.'' cur of
             Inl e \<Rightarrow> Inl e
           | Inr cur \<Rightarrow>
               (case rec_expression cur of
                  Inl e \<Rightarrow> Inl e
                | Inr (val, cur) \<Rightarrow>
                    (case Parser_match tokens COMMA cur of
                       (True, cur) \<Rightarrow>
                         pairs_loop rec_expression tokens n (pairs @ [(key, val)]) cur
                     | (False, cur) \<Rightarrow> Inr (pairs @ [(key, val)], cur)))))"

definition dictExpression ::
  "(nat \<Rightarrow> Expression parse_result) \<Rightarrow> Token list \<Rightarrow> nat \<Rightarrow> nat \<Rightarrow> Expression parse_result" where
  "dictExpression rec_expression tokens n cur =
     (case (if \<not> check tokens RBRACE cur then pairs_loop rec_expression tokens n [] cur
            else Inr ([], cur)) of
        Inl e \<Rightarrow> Inl e
      | Inr (pairs, cur) \<Rightarrow>
          (case consume tokens RBRACE ''Expect '}' after dictionary pairs.'' cur of
             Inl e \<Rightarrow> Inl e
           | Inr cur \<Rightarrow> Inr (DictExpression pairs, cur)))"

text \<open>\<open>Parser::primary\<close>. A matched INTEGER, FLOAT or STRING token whose value is not of that
  kind stays consumed and the next test follows, as in the source. \<open>FALSE\<close> and \<open>TRUE\<close> are the
  token types that token.hpp does not declare; a BOOLEAN token matches none of the tests.\<close>

definition primary ::
  "(nat \<Rightarrow> Expression parse_result) \<Rightarrow> Token list \<Rightarrow> nat \<Rightarrow> nat \<Rightarrow> Expression parse_result" where
  "primary rec_expression tokens n cur0 =
     (case Parser_match tokens FALSE cur0 of
        (True, cur) \<Rightarrow> Inr (LiteralExpression (VBool False), cur)
      | (False, cur) \<Rightarrow>
     (case Parser_match tokens TRUE cur of
        (True, cur) \<Rightarrow> Inr (LiteralExpression (VBool True), cur)
      | (False, cur) \<Rightarrow>
     (case Parser_match tokens NONE cur of
        (True, cur) \<Rightarrow> Inr (LiteralExpression VMonostate, cur)
      | (False, cur) \<Rightarrow>
     (let (m, cur) = Parser_match tokens INTEGER cur
      in case (if m then getInteger (previous tokens cur) else None) of
           Some v \<Rightarrow> Inr (LiteralExpression (VInt64 v), cur)
         | None \<Rightarrow>
     (let (m, cur) = Parser_match tokens FLOAT cur
      in case (if m then getFloat (previous tokens cur) else None) of
           Some v \<Rightarrow> Inr (LiteralExpression (VDouble v), cur)
         | None \<Rightarrow>
     (let (m, cur) = Parser_match tokens STRING cur
      in case (if m then getString (previous tokens cur) else None) of
           Some v \<Rightarrow> Inr (LiteralExpression (VString v), cur)
         | None \<Rightarrow>
     (case Parser_match tokens IDENTIFIER cur of
        (True, cur) \<Rightarrow> Inr (IdentifierExpression (lexeme (previous tokens cur)), cur)
      | (False, cur) \<Rightarrow>
     (case Parser_match tokens LPAREN cur of
        (True, cur) \<Rightarrow>
          (case rec_expression cur of
             Inl e \<Rightarrow> Inl e
           | Inr (expr, cur) \<Rightarrow>
               (case consume tokens RPAREN ''Expect ')' after expression.'' cur of
                  Inl e \<Rightarrow> Inl e
                | Inr cur \<Rightarrow> Inr (expr, cur)))
      | (False, cur) \<Rightarrow>
     (case Parser_match tokens LBRACKET cur of
        (True, cur) \<Rightarrow> listExpression rec_expression tokens n cur
      | (False, cur) \<Rightarrow>
     (case Parser_match tokens LBRACE cur of
        (True, cur) \<Rightarrow> dictExpression rec_expression tokens n cur
      | (False, cur) \<Rightarrow> error (Parser_peek tokens cur) ''Expect expression.''))))))))))"

text \<open>\<open>Parser::call\<close>, the postfix chain. No other method calls it: \<open>unary\<close> below goes to
  \<open>primary\<close> directly.\<close>

primrec call_loop ::
  "(nat \<Rightarrow> Expression parse_result) \<Rightarrow> Token list \<Rightarrow> nat \<Rightarrow> Expression \<Rightarrow> nat \<Rightarrow> Expression parse_result" where
  "call_loop rec_expression tokens 0 expr cur = Inl FuelExhausted"
| "call_loop rec_expression tokens (Suc n) expr cur0 =
     (case Parser_match tokens LPAREN cur0 of
        (True, cur) \<Rightarrow>
          (case finishCall rec_expression tokens n expr cur of
             Inl e \<Rightarrow> Inl e
           | Inr (expr, cur) \<Rightarrow> call_loop rec_expression tokens n expr cur)
      | (False, cur) \<Rightarrow>
     (case Parser_match tokens DOT cur of
        (True, cur) \<Rightarrow>
          (case consume tokens IDENTIFIER ''Expect property name after '.'.'' cur of
             Inl e \<Rightarrow> Inl e
           | Inr cur \<Rightarrow>
               (let name = lexeme (previous tokens cur)
                in call_loop rec_expression tokens n (AttributeExpression expr name) cur))
      | (False, cur) \<Rightarrow>
     (case Parser_match tokens LBRACKET cur of
        (True, cur) \<Rightarrow>
          (case rec_expression cur of
             Inl e \<Rightarrow> Inl e
           | Inr (index, cur) \<Rightarrow>
               (case consume tokens RBRACKET ''Expect ']' after index.'' cur of
                  Inl e \<Rightarrow> Inl e
                | Inr cur \<Rightarrow>
                    call_loop rec_expression tokens n (SubscriptExpression expr index) cur))
      | (False, cur) \<Rightarrow> Inr (expr, cur))))"

definition call ::
  "(nat \<Rightarrow> Expression parse_result) \<Rightarrow> Token list \<Rightarrow> nat \<Rightarrow> nat \<Rightarrow> Expression parse_result" where
  "call rec_expression tokens n cur =
     (case primary rec_expression tokens n cur of
        Inl e \<Rightarrow> Inl e
      | Inr (expr, cur) \<Rightarrow> call_loop rec_expression tokens n expr cur)"

primrec unary ::
  "(nat \<Rightarrow> Expression parse_result) \<Rightarrow> Token list \<Rightarrow> nat \<Rightarrow> nat \<Rightarrow> Expression parse_result" where
  "unary rec_expression tokens 0 cur = Inl FuelExhausted"
| "unary rec_expression tokens (Suc n) cur =
     (case match_any tokens [MINUS, NOT] cur of
        (True, cur) \<Rightarrow>
          (let operator_token = previous tokens cur
           in case unary rec_expression tokens n cur of
                Inl e \<Rightarrow> Inl e
              | Inr (operand, cur) \<Rightarrow>
                  Inr (UnaryExpression
                         (if type operator_token = MINUS then UnOp_MINUS else UnOp_NOT)
                         operand, cur))
      | (False, cur) \<Rightarrow> primary rec_expression tokens n cur)"

primrec power_loop ::
  "(nat \<Rightarrow> Expression parse_result) \<Rightarrow> Token list \<Rightarrow> nat \<Rightarrow> Expression \<Rightarrow> nat \<Rightarrow> Expression parse_result" where
  "power_loop rec_expression tokens 0 expr cur = Inl FuelExhausted"
| "power_loop rec_expression tokens (Suc n) expr cur =
     (case Parser_match tokens POWER cur of
        (False, cur) \<Rightarrow> Inr (expr, cur)
      | (True, cur) \<Rightarrow>
          (case unary rec_expression tokens n cur of
                Inl e \<Rightarrow> Inl e
              | Inr (right, cur) \<Rightarrow>
                  power_loop rec_expression tokens n
                    (BinaryExpression BinOp_POWER expr right) cur))"

definition power :: "(nat \<Rightarrow> Expression parse_result) \<Rightarrow> Token list \<Rightarrow> nat \<Rightarrow> nat \<Rightarrow> Expression parse_result" where
  "power rec_expression tokens n cur =
     (case unary rec_expression tokens n cur of
        Inl e \<Rightarrow> Inl e
      | Inr (expr, cur) \<Rightarrow> power_loop rec_expression tokens n expr cur)"

primrec factor_loop ::
  "(nat \<Rightarrow> Expression parse_result) \<Rightarrow> Token list \<Rightarrow> nat \<Rightarrow> Expression \<Rightarrow> nat \<Rightarrow> Expression parse_result" where
  "factor_loop rec_expression tokens 0 expr cur = Inl FuelExhausted"
| "factor_loop rec_expression tokens (Suc n) expr cur =
     (case match_any tokens [MULTIPLY, DIVIDE, FLOOR_DIVIDE, MODULO] cur of
        (False, cur) \<Rightarrow> Inr (expr, cur)
      | (True, cur) \<Rightarrow>
          (let operator_token = previous tokens cur
           in case power rec_expression tokens n cur of
                Inl e \<Rightarrow> Inl e
              | Inr (right, cur) \<Rightarrow>
                  factor_loop rec_expression tokens n
                    (BinaryExpression (factor_operator (type operator_token)) expr right) cur))"

definition factor :: "(nat \<Rightarrow> Expression parse_result) \<Rightarrow> Token list \<Rightarrow> nat \<Rightarrow> nat \<Rightarrow> Expression parse_result" where
  "factor rec_expression tokens n cur =
     (case power rec_expression tokens n cur of
        Inl e \<Rightarrow> Inl e
      | Inr (expr, cur) \<Rightarrow> factor_loop rec_expression tokens n expr cur)"

primrec term_loop ::
  "(nat \<Rightarrow> Expression parse_result) \<Rightarrow> Token list \<Rightarrow> nat \<Rightarrow> Expression \<Rightarrow> nat \<Rightarrow> Expression parse_result" where
  "term_loop rec_expression tokens 0 expr cur = Inl FuelExhausted"
| "term_loop rec_expression tokens (Suc n) expr cur =
     (case match_any tokens [PLUS, MINUS] cur of
        (False, cur) \<Rightarrow> Inr (expr, cur)
      | (True, cur) \<Rightarrow>
          (let operator_token = previous tokens cur
           in case factor rec_expression tokens n cur of
                Inl e \<Rightarrow> Inl e
              | Inr (right, cur) \<Rightarrow>
                  term_loop rec_expression tokens n
                    (BinaryExpression (if type operator_token = PLUS then BinOp_ADD else BinOp_SUBTRACT) expr right) cur))"

definition "term" :: "(nat \<Rightarrow> Expression parse_result) \<Rightarrow> Token list \<Rightarrow> nat \<Rightarrow> nat \<Rightarrow> Expression parse_result" where
  "term rec_expression tokens n cur =
     (case factor rec_expression tokens n cur of
        Inl e \<Rightarrow> Inl e
      | Inr (expr, cur) \<Rightarrow> term_loop rec_expression tokens n expr cur)"

primrec comparison_loop ::
  "(nat \<Rightarrow> Expression parse_result) \<Rightarrow> Token list \<Rightarrow> nat \<Rightarrow> Expression \<Rightarrow> nat \<Rightarrow> Expression parse_result" where
  "comparison_loop rec_expression tokens 0 expr cur = Inl FuelExhausted"
| "comparison_loop rec_expression tokens (Suc n) expr cur =
     (case match_any tokens [LESS, LESS_EQUAL, GREATER, GREATER_EQUAL] cur of
        (False, cur) \<Rightarrow> Inr (expr, cur)
      | (True, cur) \<Rightarrow>
          (let operator_token = previous tokens cur
           in case term rec_expression tokens n cur of
                Inl e \<Rightarrow> Inl e
              | Inr (right, cur) \<Rightarrow>
                  comparison_loop rec_expression tokens n
                    (BinaryExpression (comparison_operator (type operator_token)) expr right) cur))"

definition comparison :: "(nat \<Rightarrow> Expression parse_result) \<Rightarrow> Token list \<Rightarrow> nat \<Rightarrow> nat \<Rightarrow> Expression parse_result" where
  "comparison rec_expression tokens n cur =
     (case term rec_expression tokens n cur of
        Inl e \<Rightarrow> Inl e
      | Inr (expr, cur) \<Rightarrow> comparison_loop rec_expression tokens n expr cur)"

primrec equality_loop ::
  "(nat \<Rightarrow> Expression parse_result) \<Rightarrow> Token list \<Rightarrow> nat \<Rightarrow> Expression \<Rightarrow> nat \<Rightarrow> Expression parse_result" where
  "equality_loop rec_expression tokens 0 expr cur = Inl FuelExhausted"
| "equality_loop rec_expression tokens (Suc n) expr cur =
     (case match_any tokens [EQUAL, NOT_EQUAL] cur of
        (False, cur) \<Rightarrow> Inr (expr, cur)
      | (True, cur) \<Rightarrow>
          (let operator_token = previous tokens cur
           in case comparison rec_expression tokens n cur of
                Inl e \<Rightarrow> Inl e
              | Inr (right, cur) \<Rightarrow>
                  equality_loop rec_expression tokens n
                    (BinaryExpression (if type operator_token = EQUAL then BinOp_EQUAL else BinOp_NOT_EQUAL) expr right) cur))"

definition equality :: "(nat \<Rightarrow> Expression parse_result) \<Rightarrow> Token list \<Rightarrow> nat \<Rightarrow> nat \<Rightarrow> Expression parse_result" where
  "equality rec_expression tokens n cur =
     (case comparison rec_expression tokens n cur of
        Inl e \<Rightarrow> Inl e
      | Inr (expr, cur) \<Rightarrow> equality_loop rec_expression tokens n expr cur)"

primrec logicalAnd_loop ::
  "(nat \<Rightarrow> Expression parse_result) \<Rightarrow> Token list \<Rightarrow> nat \<Rightarrow> Expression \<Rightarrow> nat \<Rightarrow> Expression parse_result" where
  "logicalAnd_loop rec_expression tokens 0 expr cur = Inl FuelExhausted"
| "logicalAnd_loop rec_expression tokens (Suc n) expr cur =
     (case Parser_match tokens AND cur of
        (False, cur) \<Rightarrow> Inr (expr, cur)
      | (True, cur) \<Rightarrow>
          (case equality rec_expression tokens n cur of
                Inl e \<Rightarrow> Inl e
              | Inr (right, cur) \<Rightarrow>
                  logicalAnd_loop rec_expression tokens n
                    (BinaryExpression BinOp_AND expr right) cur))"

definition logicalAnd :: "(nat \<Rightarrow> Expression parse_result) \<Rightarrow> Token list \<Rightarrow> nat \<Rightarrow> nat \<Rightarrow> Expression parse_result" where
  "logicalAnd rec_expression tokens n cur =
     (case equality rec_expression tokens n cur of
        Inl e \<Rightarrow> Inl e
      | Inr (expr, cur) \<Rightarrow> logicalAnd_loop rec_expression tokens n expr cur)"

primrec logicalOr_loop ::
  "(nat \<Rightarrow> Expression parse_result) \<Rightarrow> Token list \<Rightarrow> nat \<Rightarrow> Expression \<Rightarrow> nat \<Rightarrow> Expression parse_result" where
  "logicalOr_loop rec_expression tokens 0 expr cur = Inl FuelExhausted"
| "logicalOr_loop rec_expression tokens (Suc n) expr cur =
     (case Parser_match tokens OR cur of
        (False, cur) \<Rightarrow> Inr (expr, cur)
      | (True, cur) \<Rightarrow>
          (case logicalAnd rec_expression tokens n cur of
                Inl e \<Rightarrow> Inl e
              | Inr (right, cur) \<Rightarrow>
                  logicalOr_loop rec_expression tokens n
                    (BinaryExpression BinOp_OR expr right) cur))"

definition logicalOr :: "(nat \<Rightarrow> Expression parse_result) \<Rightarrow> Token list \<Rightarrow> nat \<Rightarrow> nat \<Rightarrow> Expression parse_result" where
  "logicalOr rec_expression tokens n cur =
     (case logicalAnd rec_expression tokens n cur of
        Inl e \<Rightarrow> Inl e
      | Inr (expr, cur) \<Rightarrow> logicalOr_loop rec_expression tokens n expr cur)"

text \<open>\<open>Parser::expression\<close>, which closes the recursion.\<close>

primrec expression :: "nat \<Rightarrow> Token list \<Rightarrow> nat \<Rightarrow> Expression parse_result" where
  "expression 0 tokens = (\<lambda>cur. Inl FuelExhausted)"
| "expression (Suc n) tokens = (\<lambda>cur. logicalOr (expression n tokens) tokens n cur)"

subsection \<open>Statements\<close>

text \<open>
  The statement methods are mutually recursive through \<open>statement\<close>, which \<open>block\<close> calls: they
  take it as the argument \<open>rec_statement\<close>. \<open>statement\<close> never returns a null pointer (it returns
  a statement or throws), so the \<open>break\<close> of the loop in \<open>block\<close> is never taken. \<open>block\<close> itself
  consumes no INDENT, NEWLINE or DEDENT token.
\<close>

primrec block_loop ::
  "(nat \<Rightarrow> Statement parse_result) \<Rightarrow> Token list \<Rightarrow> nat \<Rightarrow> Statement list \<Rightarrow> nat \<Rightarrow>
   (Statement list) parse_result" where
  "block_loop rec_statement tokens 0 stmts cur = Inl FuelExhausted"
| "block_loop rec_statement tokens (Suc n) stmts cur =
     (if \<not> Parser_isAtEnd tokens cur \<and> \<not> check tokens DEDENT cur then
        (case rec_statement cur of
           Inl e \<Rightarrow> Inl e
         | Inr (stmt, cur) \<Rightarrow> block_loop rec_statement tokens n (stmts @ [stmt]) cur)
      else Inr (stmts, cur))"

definition block ::
  "(nat \<Rightarrow> Statement parse_result) \<Rightarrow> Token list \<Rightarrow> nat \<Rightarrow> nat \<Rightarrow>
   (Statement list) parse_result" where
  "block rec_statement tokens n cur = block_loop rec_statement tokens n [] cur"

text \<open>The \<open>while (match(ELIF))\<close> loop of \<open>ifStatement\<close>.\<close>

primrec elif_loop ::
  "(nat \<Rightarrow> Statement parse_result) \<Rightarrow> Token list \<Rightarrow> nat \<Rightarrow>
   (Expression \<times> Statement list) list \<Rightarrow> nat \<Rightarrow>
   ((Expression \<times> Statement list) list) parse_result" where
  "elif_loop rec_statement tokens 0 branches cur = Inl FuelExhausted"
| "elif_loop rec_statement tokens (Suc n) branches cur0 =
     (case Parser_match tokens ELIF cur0 of
        (False, cur) \<Rightarrow> Inr (branches, cur)
      | (True, cur) \<Rightarrow>
          (case consume tokens COLON ''Expect ':' after elif condition.'' cur of
             Inl e \<Rightarrow> Inl e
           | Inr cur \<Rightarrow>
               (case expression n tokens cur of
                  Inl e \<Rightarrow> Inl e
                | Inr (elif_condition, cur) \<Rightarrow>
                    (case block rec_statement tokens n cur of
                       Inl e \<Rightarrow> Inl e
                     | Inr (elif_branch, cur) \<Rightarrow>
                         elif_loop rec_statement tokens n
                           (branches @ [(elif_condition, elif_branch)]) cur))))"

text \<open>\<open>Parser::ifStatement\<close>, entered after \<open>match(IF)\<close>. Its first action is
  \<open>consume(COLON, "Expect ':' after if condition.")\<close>, before the condition is parsed.\<close>

definition ifStatement ::
  "(nat \<Rightarrow> Statement parse_result) \<Rightarrow> Token list \<Rightarrow> nat \<Rightarrow> nat \<Rightarrow> Statement parse_result"
  where
  "ifStatement rec_statement tokens n cur0 =
     (case consume tokens COLON ''Expect ':' after if condition.'' cur0 of
        Inl e \<Rightarrow> Inl e
      | Inr cur \<Rightarrow>
     (case expression n tokens cur of
        Inl e \<Rightarrow> Inl e
      | Inr (condition, cur) \<Rightarrow>
     (case block rec_statement tokens n cur of
        Inl e \<Rightarrow> Inl e
      | Inr (then_branch, cur) \<Rightarrow>
     (case elif_loop rec_statement tokens n [(condition, then_branch)] cur of
        Inl e \<Rightarrow> Inl e
      | Inr (branches, cur) \<Rightarrow>
     (case Parser_match tokens ELSE cur of
        (True, cur) \<Rightarrow>
          (case consume tokens COLON ''Expect ':' after else.'' cur of
             Inl e \<Rightarrow> Inl e
           | Inr cur \<Rightarrow>
               (case block rec_statement tokens n cur of
                  Inl e \<Rightarrow> Inl e
                | Inr (else_branch, cur) \<Rightarrow> Inr (IfStatement branches else_branch, cur)))
      | (False, cur) \<Rightarrow> Inr (IfStatement branches [], cur))))))"

definition whileStatement ::
  "(nat \<Rightarrow> Statement parse_result) \<Rightarrow> Token list \<Rightarrow> nat \<Rightarrow> nat \<Rightarrow> Statement parse_result"
  where
  "whileStatement rec_statement tokens n cur0 =
     (case expression n tokens cur0 of
        Inl e \<Rightarrow> Inl e
      | Inr (condition, cur) \<Rightarrow>
     (case consume tokens COLON ''Expect ':' after while condition.'' cur of
        Inl e \<Rightarrow> Inl e
      | Inr cur \<Rightarrow>
     (case block rec_statement tokens n cur of
        Inl e \<Rightarrow> Inl e
      | Inr (body, cur) \<Rightarrow> Inr (WhileStatement condition body, cur))))"

definition forStatement ::
  "(nat \<Rightarrow> Statement parse_result) \<Rightarrow> Token list \<Rightarrow> nat \<Rightarrow> nat \<Rightarrow> Statement parse_result"
  where
  "forStatement rec_statement tokens n cur0 =
     (case consume tokens IDENTIFIER ''Expect variable name after 'for'.'' cur0 of
        Inl e \<Rightarrow> Inl e
      | Inr cur \<Rightarrow>
     (let variable = lexeme (previous tokens cur)
      in case consume tokens IN ''Expect 'in' after variable name.'' cur of
        Inl e \<Rightarrow> Inl e
      | Inr cur \<Rightarrow>
     (case expression n tokens cur of
        Inl e \<Rightarrow> Inl e
      | Inr (iterable, cur) \<Rightarrow>
     (case consume tokens COLON ''Expect ':' after iterable.'' cur of
        Inl e \<Rightarrow> Inl e
      | Inr cur \<Rightarrow>
     (case block rec_statement tokens n cur of
        Inl e \<Rightarrow> Inl e
      | Inr (body, cur) \<Rightarrow> Inr (ForStatement variable iterable body, cur))))))"

text \<open>The \<open>while (!isAtEnd() && !check(DEDENT))\<close> loop of \<open>matchStatement\<close>.\<close>

primrec cases_loop ::
  "(nat \<Rightarrow> Statement parse_result) \<Rightarrow> Token list \<Rightarrow> nat \<Rightarrow>
   (Expression \<times> Statement list) list \<Rightarrow> nat \<Rightarrow>
   ((Expression \<times> Statement list) list) parse_result" where
  "cases_loop rec_statement tokens 0 cases cur = Inl FuelExhausted"
| "cases_loop rec_statement tokens (Suc n) cases cur0 =
     (if \<not> Parser_isAtEnd tokens cur0 \<and> \<not> check tokens DEDENT cur0 then
        (case expression n tokens cur0 of
           Inl e \<Rightarrow> Inl e
         | Inr (pattern, cur) \<Rightarrow>
             (case consume tokens COLON ''Expect ':' after pattern.'' cur of
                Inl e \<Rightarrow> Inl e
              | Inr cur \<Rightarrow>
                  (case block rec_statement tokens n cur of
                     Inl e \<Rightarrow> Inl e
                   | Inr (case_body, cur) \<Rightarrow>
                       cases_loop rec_statement tokens n (cases @ [(pattern, case_body)]) cur)))
      else Inr (cases, cur0))"

definition matchStatement ::
  "(nat \<Rightarrow> Statement parse_result) \<Rightarrow> Token list \<Rightarrow> nat \<Rightarrow> nat \<Rightarrow> Statement parse_result"
  where
  "matchStatement rec_statement tokens n cur0 =
     (case expression n tokens cur0 of
        Inl e \<Rightarrow> Inl e
      | Inr (val, cur) \<Rightarrow>
     (case consume tokens COLON ''Expect ':' after match value.'' cur of
        Inl e \<Rightarrow> Inl e
      | Inr cur \<Rightarrow>
     (case cases_loop rec_statement tokens n [] cur of
        Inl e \<Rightarrow> Inl e
      | Inr (cases, cur) \<Rightarrow> Inr (MatchStatement val cases, cur))))"

definition returnStatement :: "Token list \<Rightarrow> nat \<Rightarrow> nat \<Rightarrow> Statement parse_result" where
  "returnStatement tokens n cur0 =
     (if \<not> check tokens NEWLINE cur0 \<and> \<not> check tokens DEDENT cur0 then
        (case expression n tokens cur0 of
           Inl e \<Rightarrow> Inl e
         | Inr (val, cur) \<Rightarrow> Inr (ReturnStatement (Some val), cur))
      else Inr (ReturnStatement None, cur0))"

definition assignmentStatement :: "Token list \<Rightarrow> nat \<Rightarrow> nat \<Rightarrow> Statement parse_result" where
  "assignmentStatement tokens n cur0 =
     (case consume tokens IDENTIFIER ''Expect variable name.'' cur0 of
        Inl e \<Rightarrow> Inl e
      | Inr cur \<Rightarrow>
     (let name = lexeme (previous tokens cur)
      in case consume tokens ASSIGN ''Expect '=' after variable name.'' cur of
        Inl e \<Rightarrow> Inl e
      | Inr cur \<Rightarrow>
     (case expression n tokens cur of
        Inl e \<Rightarrow> Inl e
      | Inr (val, cur) \<Rightarrow> Inr (AssignmentStatement name val, cur))))"

definition expressionStatement :: "Token list \<Rightarrow> nat \<Rightarrow> nat \<Rightarrow> Statement parse_result" where
  "expressionStatement tokens n cur0 =
     (case expression n tokens cur0 of
        Inl e \<Rightarrow> Inl e
      | Inr (expr, cur) \<Rightarrow> Inr (ExpressionStatement expr, cur))"

text \<open>\<open>Parser::statement\<close>, which closes the recursion. The assignment test looks one token
  ahead and resets the cursor.\<close>

primrec statement :: "nat \<Rightarrow> Token list \<Rightarrow> nat \<Rightarrow> Statement parse_result" where
  "statement 0 tokens = (\<lambda>cur. Inl FuelExhausted)"
| "statement (Suc n) tokens =
     (\<lambda>cur0.
        case Parser_match tokens IF cur0 of
          (True, cur) \<Rightarrow> ifStatement (statement n tokens) tokens n cur
        | (False, cur) \<Rightarrow>
       (case Parser_match tokens WHILE cur of
          (True, cur) \<Rightarrow> whileStatement (statement n tokens) tokens n cur
        | (False, cur) \<Rightarrow>
       (case Parser_match tokens FOR cur of
          (True, cur) \<Rightarrow> forStatement (statement n tokens) tokens n cur
        | (False, cur) \<Rightarrow>
       (case Parser_match tokens MATCH cur of
          (True, cur) \<Rightarrow> matchStatement (statement n tokens) tokens n cur
        | (False, cur) \<Rightarrow>
       (case Parser_match tokens RETURN cur of
          (True, cur) \<Rightarrow> returnStatement tokens n cur
        | (False, cur) \<Rightarrow>
            if type (Parser_peek tokens cur) = IDENTIFIER \<and>
               type (Parser_peek tokens cur) \<noteq> EOF_TOKEN then
              (let temp_current = cur;
                   cur1 = snd (Parser_advance tokens cur)
               in if type (Parser_peek tokens cur1) = ASSIGN
                  then assignmentStatement tokens n temp_current
                  else expressionStatement tokens n temp_current)
            else expressionStatement tokens n cur)))))"

subsection \<open>Declarations and the program\<close>

definition importDeclaration :: "Token list \<Rightarrow> nat \<Rightarrow> Declaration parse_result" where
  "importDeclaration tokens cur0 =
     (case consume tokens IDENTIFIER ''Expect module name after 'import'.'' cur0 of
        Inl e \<Rightarrow> Inl e
      | Inr cur \<Rightarrow>
     (let module = lexeme (previous tokens cur)
      in case Parser_match tokens AS cur of
           (True, cur) \<Rightarrow>
             (case consume tokens IDENTIFIER ''Expect alias name after 'as'.'' cur of
                Inl e \<Rightarrow> Inl e
              | Inr cur \<Rightarrow> Inr (ImportDeclaration module (lexeme (previous tokens cur)), cur))
         | (False, cur) \<Rightarrow> Inr (ImportDeclaration module [], cur)))"

text \<open>The parameter loop of \<open>functionDeclaration\<close>.\<close>

primrec parameters_loop ::
  "Token list \<Rightarrow> nat \<Rightarrow> string list \<Rightarrow> nat \<Rightarrow> (string list) parse_result" where
  "parameters_loop tokens 0 parameters cur = Inl FuelExhausted"
| "parameters_loop tokens (Suc n) parameters cur0 =
     (case consume tokens IDENTIFIER ''Expect parameter name.'' cur0 of
        Inl e \<Rightarrow> Inl e
      | Inr cur \<Rightarrow>
          (let parameters' = parameters @ [lexeme (previous tokens cur)]
           in case Parser_match tokens COMMA cur of
                (True, cur) \<Rightarrow> parameters_loop tokens n parameters' cur
              | (False, cur) \<Rightarrow> Inr (parameters', cur)))"

definition functionDeclaration :: "Token list \<Rightarrow> nat \<Rightarrow> nat \<Rightarrow> Declaration parse_result" where
  "functionDeclaration tokens n cur0 =
     (case consume tokens IDENTIFIER ''Expect function name.'' cur0 of
        Inl e \<Rightarrow> Inl e
      | Inr cur \<Rightarrow>
     (let name = lexeme (previous tokens cur)
      in case consume tokens LPAREN ''Expect '(' after function name.'' cur of
        Inl e \<Rightarrow> Inl e
      | Inr cur \<Rightarrow>
     (case (if \<not> check tokens RPAREN cur then parameters_loop tokens n [] cur
            else Inr ([], cur)) of
        Inl e \<Rightarrow> Inl e
      | Inr (parameters, cur) \<Rightarrow>
     (case consume tokens RPAREN ''Expect ')' after parameters.'' cur of
        Inl e \<Rightarrow> Inl e
      | Inr cur \<Rightarrow>
     (case consume tokens COLON ''Expect ':' after function parameters.'' cur of
        Inl e \<Rightarrow> Inl e
      | Inr cur \<Rightarrow>
     (case block (statement n tokens) tokens n cur of
        Inl e \<Rightarrow> Inl e
      | Inr (body, cur) \<Rightarrow> Inr (FunctionDeclaration name parameters body False, cur)))))))"

text \<open>The member loop of \<open>classDeclaration\<close>; \<open>declaration\<close> returns the null pointer (\<open>None\<close>)
  when the next token starts no declaration, and the loop ends there.\<close>

primrec members_loop ::
  "(nat \<Rightarrow> (Declaration option) parse_result) \<Rightarrow> Token list \<Rightarrow> nat \<Rightarrow> Declaration list \<Rightarrow>
   nat \<Rightarrow> (Declaration list) parse_result" where
  "members_loop rec_declaration tokens 0 members cur = Inl FuelExhausted"
| "members_loop rec_declaration tokens (Suc n) members cur0 =
     (if \<not> Parser_isAtEnd tokens cur0 \<and> \<not> check tokens DEDENT cur0 then
        (case rec_declaration cur0 of
           Inl e \<Rightarrow> Inl e
         | Inr (Some member, cur) \<Rightarrow>
             members_loop rec_declaration tokens n (members @ [member]) cur
         | Inr (None, cur) \<Rightarrow> Inr (members, cur))
      else Inr (members, cur0))"

definition classDeclaration ::
  "(nat \<Rightarrow> (Declaration option) parse_result) \<Rightarrow> Token list \<Rightarrow> nat \<Rightarrow> nat \<Rightarrow>
   Declaration parse_result" where
  "classDeclaration rec_declaration tokens n cur0 =
     (case consume tokens IDENTIFIER ''Expect class name.'' cur0 of
        Inl e \<Rightarrow> Inl e
      | Inr cur \<Rightarrow>
     (let name = lexeme (previous tokens cur)
      in case (case Parser_match tokens LPAREN cur of
                 (True, cur) \<Rightarrow>
                   (case consume tokens IDENTIFIER ''Expect base class name.'' cur of
                      Inl e \<Rightarrow> Inl e
                    | Inr cur \<Rightarrow>
                        (let base_class = lexeme (previous tokens cur)
                         in case consume tokens RPAREN ''Expect ')' after base class.'' cur of
                              Inl e \<Rightarrow> Inl e
                            | Inr cur \<Rightarrow> Inr (base_class, cur)))
               | (False, cur) \<Rightarrow> Inr ([], cur)) of
        Inl e \<Rightarrow> Inl e
      | Inr (base_class, cur) \<Rightarrow>
     (case consume tokens COLON ''Expect ':' after class declaration.'' cur of
        Inl e \<Rightarrow> Inl e
      | Inr cur \<Rightarrow>
     (case members_loop rec_declaration tokens n [] cur of
        Inl e \<Rightarrow> Inl e
      | Inr (members, cur) \<Rightarrow> Inr (ClassDeclaration name base_class members, cur)))))"

text \<open>\<open>Parser::declaration\<close> (the bare name is reserved), which closes the recursion of the
  declaration methods; \<open>some_declaration\<close> wraps the non-null pointer a declaration method
  returns.\<close>

definition some_declaration :: "Declaration parse_result \<Rightarrow> (Declaration option) parse_result"
  where
  "some_declaration r = (case r of Inl e \<Rightarrow> Inl e | Inr (d, cur) \<Rightarrow> Inr (Some d, cur))"

primrec Parser_declaration :: "nat \<Rightarrow> Token list \<Rightarrow> nat \<Rightarrow> (Declaration option) parse_result" where
  "Parser_declaration 0 tokens = (\<lambda>cur. Inl FuelExhausted)"
| "Parser_declaration (Suc n) tokens =
     (\<lambda>cur0.
        case Parser_match tokens IMPORT cur0 of
          (True, cur) \<Rightarrow> some_declaration (importDeclaration tokens cur)
        | (False, cur) \<Rightarrow>
       (case Parser_match tokens DEF cur of
          (True, cur) \<Rightarrow> some_declaration (functionDeclaration tokens n cur)
        | (False, cur) \<Rightarrow>
       (case Parser_match tokens CLASS cur of
          (True, cur) \<Rightarrow>
            some_declaration (classDeclaration (Parser_declaration n tokens) tokens n cur)
        | (False, cur) \<Rightarrow> Inr (None, cur))))"

text \<open>The loop of \<open>Parser::program\<close>. \<open>isAtEnd\<close> is \<open>current >= tokens.size()\<close>, so the EOF
  token that ends every token vector of the tokenizer is not the end for this loop.\<close>

primrec program_loop ::
  "Token list \<Rightarrow> nat \<Rightarrow> Declaration list \<Rightarrow> Statement list \<Rightarrow> nat \<Rightarrow> ParseError + Program"
  where
  "program_loop tokens 0 decls stmts cur = Inl FuelExhausted"
| "program_loop tokens (Suc n) decls stmts cur =
     (if \<not> Parser_isAtEnd tokens cur then
        (if type (Parser_peek tokens cur) = INDENT then
           program_loop tokens n decls stmts (snd (Parser_advance tokens cur))
         else if type (Parser_peek tokens cur) = DEDENT then
           program_loop tokens n decls stmts (snd (Parser_advance tokens cur))
         else if type (Parser_peek tokens cur) = NEWLINE then
           program_loop tokens n decls stmts (snd (Parser_advance tokens cur))
         else
           (case Parser_declaration n tokens cur of
              Inl e \<Rightarrow> Inl e
            | Inr (Some decl, cur) \<Rightarrow> program_loop tokens n (decls @ [decl]) stmts cur
            | Inr (None, cur) \<Rightarrow>
                (case statement n tokens cur of
                   Inl e \<Rightarrow> Inl e
                 | Inr (stmt, cur) \<Rightarrow> program_loop tokens n decls (stmts @ [stmt]) cur)))
      else Inr \<lparr>declarations = decls, statements = stmts\<rparr>)"

definition program :: "Token list \<Rightarrow> nat \<Rightarrow> ParseError + Program" where
  "program tokens n = program_loop tokens n [] [] 0"

text \<open>\<open>Parser::parse\<close> catches the error, prints it and returns the null pointer.\<close>

definition parse :: "Token list \<Rightarrow> nat \<Rightarrow> Program option" where
  "parse tokens n = (case program tokens n of Inl e \<Rightarrow> None | Inr p \<Rightarrow> Some p)"

section \<open>The code generator (src/compiler/compiler.cpp)\<close>

text \<open>
  The code generator drives LLVM's \<open>IRBuilder\<close>, which is not part of the repository. The
  model records what the code generator asks of it: every \<open>Create...\<close> call becomes an
  instruction, kept in creation order together with the function whose entry block was the
  insert point; constants are values without an instruction. What LLVM does with the
  requests afterwards (constant folding, renaming, verification) is not modelled;
  \<open>llvm::verifyModule\<close> is a parameter of \<open>compile\<close>.
\<close>

datatype LLVMType = Int1Ty | Int8PtrTy | Int32Ty | Int64Ty | DoubleTy

text \<open>\<open>llvm::Value*\<close>: a constant (\<open>getInt64\<close>, \<open>getInt32\<close>, \<open>getInt1\<close> with the bit width,
  \<open>ConstantFP::get\<close>, \<open>CreateGlobalStringPtr\<close>), the \<open>i\<close>-th argument of the \<open>f\<close>-th function,
  the result of the \<open>k\<close>-th instruction created, or a function of the module.\<close>

datatype Value =
    ConstantInt nat int
  | ConstantFP double
  | GlobalStringPtr string
  | Argument nat nat
  | InstructionValue nat
  | FunctionValue nat

text \<open>The type handed to \<open>CreateAlloca\<close>: a given one, or \<open>value->getType()\<close>.\<close>

datatype AllocatedType = Ty LLVMType | TypeOf Value

text \<open>The instructions of the \<open>IRBuilder\<close> interface that compiler.cpp and llvm\_backend.hpp
  name. \<open>CreateRet\<close> is handed a pointer that may be null. compiler.cpp never calls
  \<open>CreateBr\<close> and \<open>CreateCondBr\<close>.\<close>

datatype Instruction =
    CreateAlloca AllocatedType string
  | CreateStore Value Value
  | CreateLoad LLVMType Value
  | CreateAdd Value Value
  | CreateSub Value Value
  | CreateMul Value Value
  | CreateSDiv Value Value
  | CreateSRem Value Value
  | CreateICmpEQ Value Value
  | CreateICmpNE Value Value
  | CreateICmpSLT Value Value
  | CreateICmpSLE Value Value
  | CreateICmpSGT Value Value
  | CreateICmpSGE Value Value
  | CreateNeg Value
  | CreateNot Value
  | CreateCall Value "Value list"
  | CreateRet "Value option"
  | CreateRetVoid
  | CreateBr nat
  | CreateCondBr Value nat nat

fun isTerminator :: "Instruction \<Rightarrow> bool" where
  "isTerminator (CreateRet v) = True"
| "isTerminator CreateRetVoid = True"
| "isTerminator (CreateBr b) = True"
| "isTerminator (CreateCondBr c t e) = True"
| "isTerminator i = False"

fun isBranch :: "Instruction \<Rightarrow> bool" where
  "isBranch (CreateBr b) = True"
| "isBranch (CreateCondBr c t e) = True"
| "isBranch i = False"

text \<open>A function of the module, as \<open>llvm::Function::Create\<close> is asked for it; every function
  with a body has the single basic block \<open>entry\<close>.\<close>

record IRFunction =
  fn_name :: string
  fn_params :: "LLVMType list"
  fn_return :: LLVMType
  fn_vararg :: bool
  fn_has_entry :: bool

text \<open>The fields of class \<open>Compiler\<close>: the module (its functions and string constants, and
  every instruction created with the function whose entry block received it), the builder's
  insert point, \<open>currentFunction\<close> and \<open>currentBlock\<close> (functions by their index), and the one
  symbol table \<open>variables\<close>.\<close>

record Compiler =
  module_functions :: "IRFunction list"
  strings :: "string list"
  instructions :: "(nat option \<times> Instruction) list"
  insert_point :: "nat option"
  currentFunction :: "nat option"
  currentBlock :: "nat option"
  variables :: "string \<rightharpoonup> Value"

definition Compiler_init :: Compiler where
  "Compiler_init =
     \<lparr>module_functions = [], strings = [], instructions = [], insert_point = None,
      currentFunction = None, currentBlock = None, variables = Map.empty\<rparr>"

text \<open>A \<open>Create...\<close> call: the instruction goes to the insert point and its result is a new
  value.\<close>

definition emit :: "Instruction \<Rightarrow> Compiler \<Rightarrow> Value \<times> Compiler" where
  "emit i c =
     (InstructionValue (length (instructions c)),
      c\<lparr>instructions := instructions c @ [(insert_point c, i)]\<rparr>)"

text \<open>The instructions of the entry block of function \<open>f\<close>, and \<open>BasicBlock::getTerminator\<close>.\<close>

definition block_of :: "Compiler \<Rightarrow> nat \<Rightarrow> Instruction list" where
  "block_of c f = map snd (filter (\<lambda>(g, i). g = Some f) (instructions c))"

definition getTerminator :: "Compiler \<Rightarrow> nat \<Rightarrow> Instruction option" where
  "getTerminator c f =
     (case rev (block_of c f) of
        [] \<Rightarrow> None
      | i # _ \<Rightarrow> if isTerminator i then Some i else None)"

subsection \<open>Expressions\<close>

definition compileLiteralExpression :: "Variant \<Rightarrow> Compiler \<Rightarrow> Value option \<times> Compiler" where
  "compileLiteralExpression v c =
     (case v of
        VInt64 i \<Rightarrow> (Some (ConstantInt 64 i), c)
      | VDouble d \<Rightarrow> (Some (ConstantFP d), c)
      | VBool b \<Rightarrow> (Some (ConstantInt 1 (if b then 1 else 0)), c)
      | VString s \<Rightarrow> (Some (GlobalStringPtr s), c\<lparr>strings := strings c @ [s]\<rparr>)
      | VMonostate \<Rightarrow> (Some (ConstantInt 32 0), c))"

definition compileIdentifierExpression :: "string \<Rightarrow> Compiler \<Rightarrow> Value option \<times> Compiler" where
  "compileIdentifierExpression name c =
     (case variables c name of
        Some slot \<Rightarrow> (let (v, c') = emit (CreateLoad Int64Ty slot) c in (Some v, c'))
      | None \<Rightarrow> (Some (ConstantInt 64 0), c))"

text \<open>The \<open>switch\<close> of \<open>compileBinaryExpression\<close>: the instruction for an operator, or none
  (\<open>default: return nullptr\<close>) for \<open>FLOOR_DIVIDE\<close>, \<open>POWER\<close>, \<open>AND\<close> and \<open>OR\<close>.\<close>

fun binary_instruction :: "BinaryOperator \<Rightarrow> Value \<Rightarrow> Value \<Rightarrow> Instruction option" where
  "binary_instruction BinOp_ADD l r = Some (CreateAdd l r)"
| "binary_instruction BinOp_SUBTRACT l r = Some (CreateSub l r)"
| "binary_instruction BinOp_MULTIPLY l r = Some (CreateMul l r)"
| "binary_instruction BinOp_DIVIDE l r = Some (CreateSDiv l r)"
| "binary_instruction BinOp_MODULO l r = Some (CreateSRem l r)"
| "binary_instruction BinOp_EQUAL l r = Some (CreateICmpEQ l r)"
| "binary_instruction BinOp_NOT_EQUAL l r = Some (CreateICmpNE l r)"
| "binary_instruction BinOp_LESS l r = Some (CreateICmpSLT l r)"
| "binary_instruction BinOp_LESS_EQUAL l r = Some (CreateICmpSLE l r)"
| "binary_instruction BinOp_GREATER l r = Some (CreateICmpSGT l r)"
| "binary_instruction BinOp_GREATER_EQUAL l r = Some (CreateICmpSGE l r)"
| "binary_instruction BinOp_FLOOR_DIVIDE l r = None"
| "binary_instruction BinOp_POWER l r = None"
| "binary_instruction BinOp_AND l r = None"
| "binary_instruction BinOp_OR l r = None"

text \<open>
  \<open>compileExpression\<close> with the methods it dispatches to. \<open>None\<close> is the null pointer.
  \<open>compileBinaryExpression\<close> lowers both operands before it looks at the operator.
  \<open>compileCallExpression\<close> lowers the callee as an expression, lowers the arguments in order
  (dropping those that give the null pointer) and creates a call of function type \<open>i64 ()\<close>;
  it consults neither the module's functions nor their parameter counts.
  Attribute, subscript, list, dictionary and tuple expressions have no case and give the
  null pointer.
\<close>

fun compileExpression :: "Expression \<Rightarrow> Compiler \<Rightarrow> Value option \<times> Compiler"
  and compileArguments :: "Expression list \<Rightarrow> Compiler \<Rightarrow> Value list \<times> Compiler"
where
  "compileExpression (LiteralExpression v) c = compileLiteralExpression v c"
| "compileExpression (IdentifierExpression name) c = compileIdentifierExpression name c"
| "compileExpression (BinaryExpression op l r) c =
     (let (left, c1) = compileExpression l c;
          (right, c2) = compileExpression r c1
      in case (left, right) of
           (Some lv, Some rv) \<Rightarrow>
             (case binary_instruction op lv rv of
                Some i \<Rightarrow> (let (v, c3) = emit i c2 in (Some v, c3))
              | None \<Rightarrow> (None, c2))
         | _ \<Rightarrow> (None, c2))"
| "compileExpression (UnaryExpression op e) c =
     (let (operand, c1) = compileExpression e c
      in case operand of
           None \<Rightarrow> (None, c1)
         | Some ov \<Rightarrow>
             (case op of
                UnOp_PLUS \<Rightarrow> (Some ov, c1)
              | UnOp_MINUS \<Rightarrow> (let (v, c2) = emit (CreateNeg ov) c1 in (Some v, c2))
              | UnOp_NOT \<Rightarrow> (let (v, c2) = emit (CreateNot ov) c1 in (Some v, c2))))"
| "compileExpression (CallExpression callee arguments) c =
     (let (callee_value, c1) = compileExpression callee c
      in case callee_value of
           None \<Rightarrow> (None, c1)
         | Some cv \<Rightarrow>
             (let (args, c2) = compileArguments arguments c1;
                  (v, c3) = emit (CreateCall cv args) c2
              in (Some v, c3)))"
| "compileExpression (AttributeExpression e name) c = (None, c)"
| "compileExpression (SubscriptExpression e i) c = (None, c)"
| "compileExpression (ListExpression es) c = (None, c)"
| "compileExpression (DictExpression ps) c = (None, c)"
| "compileExpression (TupleExpression es) c = (None, c)"
| "compileArguments [] c = ([], c)"
| "compileArguments (arg # rest) c =
     (let (compiledArg, c1) = compileExpression arg c;
          (args, c2) = compileArguments rest c1
      in (case compiledArg of Some v \<Rightarrow> v # args | None \<Rightarrow> args, c2))"

subsection \<open>Statements\<close>

definition compileAssignmentStatement :: "string \<Rightarrow> Expression \<Rightarrow> Compiler \<Rightarrow> Compiler" where
  "compileAssignmentStatement name e c =
     (let (val, c1) = compileExpression e c
      in case val of
           None \<Rightarrow> c1
         | Some v \<Rightarrow>
             (case variables c1 name of
                Some slot \<Rightarrow> snd (emit (CreateStore v slot) c1)
              | None \<Rightarrow>
                  (let (alloca, c2) = emit (CreateAlloca (TypeOf v) name) c1;
                       c3 = snd (emit (CreateStore v alloca) c2)
                   in c3\<lparr>variables := (variables c3)(name \<mapsto> alloca)\<rparr>)))"

definition compileReturnStatement :: "Expression option \<Rightarrow> Compiler \<Rightarrow> Compiler" where
  "compileReturnStatement val c =
     (case val of
        Some e \<Rightarrow> (let (v, c1) = compileExpression e c in snd (emit (CreateRet v) c1))
      | None \<Rightarrow> snd (emit CreateRetVoid c))"

text \<open>\<open>compileStatement\<close>. The bodies of \<open>compileIfStatement\<close>, \<open>compileWhileStatement\<close> and
  \<open>compileForStatement\<close> are empty, and a match statement has no case.\<close>

fun compileStatement :: "Statement \<Rightarrow> Compiler \<Rightarrow> Compiler" where
  "compileStatement (AssignmentStatement name e) c = compileAssignmentStatement name e c"
| "compileStatement (ExpressionStatement e) c = snd (compileExpression e c)"
| "compileStatement (ReturnStatement val) c = compileReturnStatement val c"
| "compileStatement (IfStatement branches else_body) c = c"
| "compileStatement (WhileStatement condition body) c = c"
| "compileStatement (ForStatement variable iterable body) c = c"
| "compileStatement (MatchStatement val cases) c = c"

subsection \<open>Declarations\<close>

text \<open>\<open>llvm::Function::Create\<close> followed, for a function with a body, by
  \<open>BasicBlock::Create(*context, "entry", function)\<close>; the result is the function's index.\<close>

definition Function_Create ::
  "LLVMType \<Rightarrow> LLVMType list \<Rightarrow> bool \<Rightarrow> string \<Rightarrow> bool \<Rightarrow> Compiler \<Rightarrow> nat \<times> Compiler" where
  "Function_Create ret params vararg name entry c =
     (length (module_functions c),
      c\<lparr>module_functions := module_functions c @
          [\<lparr>fn_name = name, fn_params = params, fn_return = ret, fn_vararg = vararg,
            fn_has_entry = entry\<rparr>]\<rparr>)"

text \<open>The loop that stores the parameters: a stack slot per argument, entered in
  \<open>variables\<close> under the parameter's name.\<close>

fun store_parameters :: "nat \<Rightarrow> nat \<Rightarrow> string list \<Rightarrow> Compiler \<Rightarrow> Compiler" where
  "store_parameters f paramIndex [] c = c"
| "store_parameters f paramIndex (p # ps) c =
     (let (alloca, c1) = emit (CreateAlloca (Ty Int64Ty) p) c;
          c2 = snd (emit (CreateStore (Argument f paramIndex) alloca) c1);
          c3 = c2\<lparr>variables := (variables c2)(p \<mapsto> alloca)\<rparr>
      in store_parameters f (paramIndex + 1) ps c3)"

text \<open>\<open>compileFunctionDeclaration\<close>, in two parts. \<open>function_prologue\<close> is the part before the
  body: the function and its entry block are created, the insert point moves there (and is
  not moved back afterwards) and the parameters are stored; its result is the new function
  and the state in which the body is lowered. Then the body is lowered statement by
  statement, and a \<open>ret i64 0\<close> is added if the entry block has no terminator. \<open>variables\<close> is
  neither cleared nor saved.\<close>

definition function_prologue :: "string \<Rightarrow> string list \<Rightarrow> Compiler \<Rightarrow> nat \<times> Compiler" where
  "function_prologue name parameters c =
     (let (f, c1) = Function_Create Int64Ty (map (\<lambda>p. Int64Ty) parameters) False name True c;
          c2 = c1\<lparr>insert_point := Some f\<rparr>
      in (f, store_parameters f 0 parameters c2))"

definition compileFunctionDeclaration ::
  "string \<Rightarrow> string list \<Rightarrow> Statement list \<Rightarrow> Compiler \<Rightarrow> Compiler" where
  "compileFunctionDeclaration name parameters body c =
     (let (f, c3) = function_prologue name parameters c;
          c4 = fold compileStatement body c3
      in if getTerminator c4 f = None
         then snd (emit (CreateRet (Some (ConstantInt 64 0))) c4)
         else c4)"

text \<open>\<open>compileDeclaration\<close>; \<open>compileClassDeclaration\<close> has an empty body and an import has
  no case.\<close>

fun compileDeclaration :: "Declaration \<Rightarrow> Compiler \<Rightarrow> Compiler" where
  "compileDeclaration (FunctionDeclaration name parameters body is_async) c =
     compileFunctionDeclaration name parameters body c"
| "compileDeclaration (ClassDeclaration name base_class members) c = c"
| "compileDeclaration (ImportDeclaration module alias) c = c"

subsection \<open>The entry point\<close>

definition setupStandardLibrary :: "Compiler \<Rightarrow> Compiler" where
  "setupStandardLibrary c =
     snd (Function_Create Int32Ty [Int8PtrTy] True ''printf'' False c)"

definition createMainFunction :: "Compiler \<Rightarrow> Compiler" where
  "createMainFunction c =
     (let (mainFunc, c1) = Function_Create Int32Ty [] False ''main'' True c
      in c1\<lparr>insert_point := Some mainFunc, currentFunction := Some mainFunc,
            currentBlock := Some mainFunc\<rparr>)"

text \<open>The body of \<open>Compiler::compile\<close> up to the verification: the state when
  \<open>llvm::verifyModule\<close> is called.\<close>

definition compile_module :: "Program \<Rightarrow> Compiler \<Rightarrow> Compiler" where
  "compile_module prog c =
     (let c1 = createMainFunction (setupStandardLibrary c);
          c2 = fold compileDeclaration (declarations prog) c1;
          c3 = fold compileStatement (statements prog) c2
      in case currentBlock c3 of
           Some b \<Rightarrow>
             if getTerminator c3 b = None
             then snd (emit (CreateRet (Some (ConstantInt 32 0))) c3)
             else c3
         | None \<Rightarrow> c3)"

text \<open>\<open>Compiler::compile\<close>: false for the null program and when \<open>llvm::verifyModule\<close> reports a
  broken module (it returns true then); these are the only two errors it raises.\<close>

definition compile ::
  "(Compiler \<Rightarrow> bool) \<Rightarrow> Program option \<Rightarrow> Compiler \<Rightarrow> bool \<times> Compiler" where
  "compile verifyModule prog c =
     (case prog of
        None \<Rightarrow> (False, c)
      | Some p \<Rightarrow>
          (let c' = compile_module p c
           in if verifyModule c' then (False, c') else (True, c')))"

section \<open>Properties of the tokenizer\<close>

subsection \<open>The token stream ends with its only EOF token\<close>

definition is_EOF :: "Token \<Rightarrow> bool" where
  "is_EOF t = (type t = EOF_TOKEN)"

lemma tokenize_loop_shape:
  "tokenize_loop stod s tokens = Inr (ts, s') \<Longrightarrow>
   \<exists>new eof. ts = tokens @ new @ [eof] \<and> is_EOF eof \<and> filter is_EOF new = []"
proof (induction stod s tokens rule: tokenize_loop.induct)
  case (1 stod s tokens)
  from "1.prems" obtain token s1 where nt: "nextToken stod s = Inr (token, s1)"
    by (auto simp: tokenize_loop.simps [of stod s tokens] split: sum.splits)
  show ?case
  proof (cases "type token \<noteq> EOF_TOKEN")
    case True
    then have "tokenize_loop stod s1 (tokens @ [token]) = Inr (ts, s')"
      using "1.prems" nt by (simp add: tokenize_loop.simps [of stod s tokens])
    from "1.IH" [OF nt refl True this]
    obtain new eof where "ts = (tokens @ [token]) @ new @ [eof]" "is_EOF eof"
      "filter is_EOF new = []" by blast
    then have "ts = tokens @ (token # new) @ [eof] \<and> is_EOF eof
        \<and> filter is_EOF (token # new) = []"
      using True by (simp add: is_EOF_def)
    then show ?thesis by blast
  next
    case False
    then have "ts = tokens @ [] @ [token]"
      using "1.prems" nt by (simp add: tokenize_loop.simps [of stod s tokens])
    then show ?thesis using False by (auto simp: is_EOF_def)
  qed
qed

text \<open>
  C8 (as amended). For every source string \<open>tokenize\<close> terminates: it either throws a lexical
  error (unexpected character, unterminated string, invalid indentation, a number out of
  range) or returns a token sequence, and a returned sequence contains exactly one EOF token,
  its final element. Termination is the totality of \<open>tokenize_loop\<close>, whose termination proof is
  above.
\<close>

theorem tokenize_terminates_with_single_EOF:
  "(\<exists>e. tokenize_source stod src = Inl e) \<or>
   (\<exists>ts. tokenize_source stod src = Inr ts \<and> ts \<noteq> [] \<and> is_EOF (last ts) \<and>
      length (filter is_EOF ts) = 1)"
proof (cases "tokenize stod (Tokenizer_init src)")
  case (Inl e)
  then show ?thesis by (simp add: tokenize_source_def)
next
  case (Inr p)
  obtain ts s' where p: "p = (ts, s')" by (cases p)
  with Inr have "tokenize_loop stod (Tokenizer_init src) [] = Inr (ts, s')"
    by (simp add: tokenize_def)
  from tokenize_loop_shape [OF this]
  obtain new eof where "ts = new @ [eof]" "is_EOF eof" "filter is_EOF new = []"
    by auto
  then have "ts \<noteq> [] \<and> is_EOF (last ts) \<and> length (filter is_EOF ts) = 1"
    by simp
  moreover have "tokenize_source stod src = Inr ts"
    using Inr p by (simp add: tokenize_source_def)
  ultimately show ?thesis by blast
qed

text \<open>The source \<open>@\<close> has no token sequence at all: \<open>nextToken\<close> throws on its first character.\<close>

lemma tokenize_at_sign:
  "tokenize_source (\<lambda>_. None) ''@'' = Inl (UnexpectedCharacter (CHR ''@'') 1)"
  by code_simp

theorem tokenize_unexpected_character_no_result:
  "\<not> (\<exists>ts. tokenize_source (\<lambda>_. None) ''@'' = Inr ts \<and> ts \<noteq> [] \<and> is_EOF (last ts) \<and>
        length (filter is_EOF ts) = 1)"
  by (simp add: tokenize_at_sign)

subsection \<open>The indentation stack\<close>

definition stack_invariant :: "nat list \<Rightarrow> bool" where
  "stack_invariant stack = (stack \<noteq> [] \<and> hd stack = 0 \<and> sorted_wrt (<) stack)"

text \<open>The state after \<open>n\<close> calls of \<open>nextToken\<close> that all return normally.\<close>

fun nextToken_calls ::
  "(string \<Rightarrow> double option) \<Rightarrow> nat \<Rightarrow> Tokenizer \<Rightarrow> Tokenizer option" where
  "nextToken_calls stod 0 s = Some s"
| "nextToken_calls stod (Suc n) s =
     (case nextToken stod s of Inl e \<Rightarrow> None | Inr (t, s') \<Rightarrow> nextToken_calls stod n s')"

lemma dedent_loop_result:
  "dedent_loop spaces tok stack toks = (stack', toks') \<Longrightarrow>
   \<exists>k. stack' = take (length stack - k) stack \<and> toks' = toks @ replicate k tok \<and>
       (stack \<noteq> [] \<and> last stack > spaces \<longrightarrow> 0 < k)"
proof (induction spaces tok stack toks rule: dedent_loop.induct)
  case (1 spaces tok stack toks)
  show ?case
  proof (cases "stack \<noteq> [] \<and> last stack > spaces")
    case True
    then have "dedent_loop spaces tok (butlast stack) (toks @ [tok]) = (stack', toks')"
      using "1.prems" by (simp add: dedent_loop.simps [of spaces tok stack toks])
    from "1.IH" [OF True this] obtain k where
      k: "stack' = take (length (butlast stack) - k) (butlast stack)"
         "toks' = (toks @ [tok]) @ replicate k tok" by blast
    have "stack' = take (length stack - Suc k) stack"
      using k(1) by (simp add: butlast_conv_take min_def)
    moreover have "toks' = toks @ replicate (Suc k) tok"
      using k(2) by (simp add: replicate_app_Cons_same)
    ultimately show ?thesis by blast
  next
    case False
    then have "stack' = stack \<and> toks' = toks"
      using "1.prems" by (auto simp: dedent_loop.simps [of spaces tok stack toks])
    then have "stack' = take (length stack - 0) stack \<and> toks' = toks @ replicate 0 tok"
      by simp
    then show ?thesis using False by blast
  qed
qed

lemma sorted_wrt_less_last:
  "sorted_wrt (<) (xs :: nat list) \<Longrightarrow> y \<in> set xs \<Longrightarrow> y \<le> last xs"
proof (induction xs)
  case Nil
  then show ?case by simp
next
  case (Cons a xs)
  show ?case
  proof (cases "xs = []")
    case True
    then show ?thesis using Cons.prems by simp
  next
    case False
    then have "last xs \<in> set xs" by simp
    then have "a < last xs" using Cons.prems(1) by simp
    moreover have "y \<le> last xs" if "y \<in> set xs"
      using that Cons.IH Cons.prems(1) by simp
    ultimately show ?thesis using Cons.prems(2) False by auto
  qed
qed

lemma stack_invariant_push:
  assumes "stack_invariant stack" and "last stack < x"
  shows "stack_invariant (stack @ [x])"
proof -
  have "\<forall>y\<in>set stack. y < x"
    using assms sorted_wrt_less_last [of stack] by (fastforce simp: stack_invariant_def)
  then show ?thesis
    using assms(1) by (auto simp: stack_invariant_def sorted_wrt_append)
qed

lemma stack_invariant_take:
  assumes "stack_invariant stack" and "take k stack \<noteq> []"
  shows "stack_invariant (take k stack)"
proof -
  have "sorted_wrt (<) (take k stack)"
    using assms(1) by (simp add: stack_invariant_def)
  moreover have "hd (take k stack) = hd stack"
    using assms(2) by (cases k; cases stack) simp_all
  ultimately show ?thesis using assms by (simp add: stack_invariant_def)
qed

lemma handleIndentation_stack_invariant:
  assumes "handleIndentation s = Inr (t, s')" and "stack_invariant (indent_stack s)"
  shows "stack_invariant (indent_stack s')"
proof -
  let ?sp = "count_indent (source s) (current s) 0 div 4"
  let ?tok = "\<lparr>type = DEDENT, lexeme = [], value = VMonostate,
               line = Tokenizer.line s, column = Tokenizer.column s\<rparr>"
  obtain st ds where dl: "dedent_loop ?sp ?tok (indent_stack s) [] = (st, ds)"
    by (cases "dedent_loop ?sp ?tok (indent_stack s) []")
  from assms(1) dl have
    "(last (indent_stack s) < ?sp \<and> indent_stack s' = indent_stack s @ [?sp]) \<or>
     (st \<noteq> [] \<and> indent_stack s' = st) \<or>
     indent_stack s' = indent_stack s"
    using assms(2)
    by (auto simp: handleIndentation_def Let_def stack_invariant_def split: if_splits)
  moreover from dedent_loop_result [OF dl]
  obtain k where "st = take (length (indent_stack s) - k) (indent_stack s)" by blast
  ultimately show ?thesis
    using assms(2) stack_invariant_push stack_invariant_take by metis
qed

subsection \<open>The cases of nextToken\<close>

text \<open>The state after \<open>start = current; char c = advance();\<close> and the state after the reset
  \<open>current = start; column = column - 1;\<close> that precedes \<open>string\<close>, \<open>number\<close> and
  \<open>identifier\<close>.\<close>

definition after_first_char :: "Tokenizer \<Rightarrow> Tokenizer" where
  "after_first_char s =
     snd (advance ((skipWhitespace s)\<lparr>start := current (skipWhitespace s)\<rparr>))"

definition rewound :: "Tokenizer \<Rightarrow> Tokenizer" where
  "rewound s =
     (after_first_char s)\<lparr>current := start (after_first_char s),
        column := size_t_sub (Tokenizer.column (after_first_char s)) 1\<rparr>"

lemma after_first_char_frame:
  "source (after_first_char s) = source s"
  "indent_stack (after_first_char s) = indent_stack s"
  "start (after_first_char s) = current (skipWhitespace s)"
  using skipWhitespace_extends [of s]
    advance_extends [of "(skipWhitespace s)\<lparr>start := current (skipWhitespace s)\<rparr>"]
  by (simp_all add: after_first_char_def extends_def)

lemma rewound_frame:
  "source (rewound s) = source s"
  "indent_stack (rewound s) = indent_stack s"
  "start (rewound s) = current (rewound s)"
  "current (rewound s) = current (skipWhitespace s)"
  by (simp_all add: rewound_def after_first_char_frame)

lemma nextToken_cases [consumes 1, case_names eof ind com str num idn opr]:
  assumes "nextToken stod s = Inr (t, s')"
  obtains
    "type t = EOF_TOKEN" "s' = skipWhitespace s"
  | "handleIndentation (after_first_char s) = Inr (t, s')"
  | "s' = skipComment (after_first_char s)" "t = makeToken COMMENT s'"
  | "string (rewound s) = Inr (t, s')" "\<not> isAtEnd (rewound s)"
      "peek (rewound s) = CHR 0x22 \<or> peek (rewound s) = CHR 0x27"
  | "number stod (rewound s) = Inr (t, s')"
  | "identifier_tok (rewound s) = (t, s')"
  | c where "operator_token c (after_first_char s) = Inr (t, s')"
proof (cases "isAtEnd (skipWhitespace s)")
  case True
  then have "type t = EOF_TOKEN" "s' = skipWhitespace s"
    using assms by (auto simp: nextToken_def Let_def)
  then show ?thesis using that(1) by blast
next
  case False
  let ?s1 = "skipWhitespace s"
  let ?s2 = "?s1\<lparr>start := current ?s1\<rparr>"
  obtain c sa where adv: "advance ?s2 = (c, sa)" by (cases "advance ?s2")
  then have sa: "sa = after_first_char s" by (simp add: after_first_char_def)
  have ne2: "\<not> isAtEnd ?s2" using False by (simp add: isAtEnd_def)
  have c: "c = source s ! current ?s1"
    using adv advance_fst [OF ne2] skipWhitespace_extends [of s] by (simp add: extends_def)
  have r: "\<not> isAtEnd (rewound s)" "peek (rewound s) = c"
    using False c rewound_frame [of s] skipWhitespace_extends [of s]
    by (simp_all add: isAtEnd_def peek_def extends_def)
  from assms False adv have
    "handleIndentation sa = Inr (t, s') \<or>
     (s' = skipComment sa \<and> t = makeToken COMMENT s') \<or>
     ((c = CHR 0x22 \<or> c = CHR 0x27) \<and> string (rewound s) = Inr (t, s')) \<or>
     number stod (rewound s) = Inr (t, s') \<or>
     identifier_tok (rewound s) = (t, s') \<or>
     operator_token c sa = Inr (t, s')"
    unfolding rewound_def sa [symmetric]
    by (auto simp: nextToken_def Let_def split: if_splits)
  then show ?thesis using that(2-7) r sa by blast
qed

lemma nextToken_stack_invariant:
  assumes "nextToken stod s = Inr (t, s')" and "stack_invariant (indent_stack s)"
  shows "stack_invariant (indent_stack s')"
  using assms(1)
proof (cases rule: nextToken_cases)
  case eof
  then show ?thesis using assms(2) skipWhitespace_extends [of s] by (simp add: extends_def)
next
  case ind
  then show ?thesis
    using handleIndentation_stack_invariant assms(2) after_first_char_frame(2) by metis
next
  case com
  then show ?thesis
    using assms(2) skipComment_extends [of "after_first_char s"] after_first_char_frame(2)
    by (simp add: extends_def)
next
  case str
  then show ?thesis
    using assms(2) string_extends(1) [OF str(1)] rewound_frame(2) by (simp add: extends_def)
next
  case num
  then show ?thesis
    using assms(2) number_extends(1) [OF num] rewound_frame(2) by (simp add: extends_def)
next
  case idn
  then have "s' = identifier_loop (rewound s)"
    using identifier_tok_snd [of "rewound s"] by simp
  then show ?thesis
    using assms(2) identifier_loop_extends [of "rewound s"] rewound_frame(2)
    by (simp add: extends_def)
next
  case (opr c)
  then show ?thesis
    using assms(2) operator_token_extends [OF opr] after_first_char_frame(2)
    by (simp add: extends_def)
qed

lemma nextToken_calls_stack_invariant:
  "stack_invariant (indent_stack s0) \<Longrightarrow> nextToken_calls stod n s0 = Some s \<Longrightarrow>
   stack_invariant (indent_stack s)"
proof (induction n arbitrary: s0)
  case 0
  then show ?case by simp
next
  case (Suc n)
  from Suc.prems(2) obtain t s1 where
    nt: "nextToken stod s0 = Inr (t, s1)" and rest: "nextToken_calls stod n s1 = Some s"
    by (auto split: sum.splits)
  show ?case
    using Suc.IH [OF nextToken_stack_invariant [OF nt Suc.prems(1)] rest] .
qed

text \<open>
  C9. After construction (\<open>n = 0\<close>) and after every sequence of \<open>nextToken\<close> calls that all
  return normally, the indentation stack is not empty, its bottom entry is the base level 0,
  and it is strictly increasing from bottom to top.
\<close>

theorem indent_stack_invariant:
  assumes "nextToken_calls stod n (Tokenizer_init src) = Some s"
  shows "indent_stack s \<noteq> [] \<and> hd (indent_stack s) = 0 \<and> sorted_wrt (<) (indent_stack s)"
proof -
  have "stack_invariant (indent_stack (Tokenizer_init src))"
    by (simp add: Tokenizer_init_def stack_invariant_def)
  from nextToken_calls_stack_invariant [OF this assms]
  show ?thesis by (simp add: stack_invariant_def)
qed

text \<open>After the tokens \<open>a\<close> and INDENT of a two-line source the stack is \<open>[0, 1]\<close>.\<close>

lemma two_calls_indented:
  "nextToken_calls (\<lambda>_. None) 2 (Tokenizer_init ''a\<newline>    b'') =
     Some \<lparr>source = ''a\<newline>    b'', current = 2, start = 1, line = 2, column = 0,
           indent_stack = [0, 1]\<rparr>"
  by code_simp

theorem indent_stack_invariant_witness:
  "nextToken_calls (\<lambda>_. None) 2 (Tokenizer_init ''a\<newline>    b'') =
     Some \<lparr>source = ''a\<newline>    b'', current = 2, start = 1, line = 2, column = 0,
           indent_stack = [0, 1]\<rparr> \<and>
   [0, 1 :: nat] \<noteq> [] \<and> hd [0, 1 :: nat] = 0 \<and> sorted_wrt (<) [0, 1 :: nat]"
  using indent_stack_invariant [OF two_calls_indented] two_calls_indented by simp

subsection \<open>String literals\<close>

lemma string_loop_exit: "isAtEnd (string_loop q s) \<or> peek (string_loop q s) = q"
proof (induction q s rule: string_loop.induct)
  case (1 q s)
  show ?case
  proof (cases "\<not> isAtEnd s \<and> peek s \<noteq> q")
    case True
    then show ?thesis
      using "1.IH" by (cases "peek s = CHR 0x5C") (simp_all add: string_loop.simps [of q s] Let_def)
  next
    case False
    then show ?thesis by (auto simp: string_loop.simps [of q s])
  qed
qed

lemma slice_between_quotes:
  assumes "a + n \<le> length xs" and "2 \<le> n"
  shows "take n (drop a xs) = xs ! a # take (n - 2) (drop (a + 1) xs) @ [xs ! (a + n - 1)]"
proof -
  obtain m where n: "n = Suc (Suc m)" using assms(2) by (metis add_2_eq_Suc le_Suc_ex)
  have a: "a < length xs" "Suc a + m < length xs" using assms(1) n by simp_all
  have "take n (drop a xs) = xs ! a # take (Suc m) (drop (Suc a) xs)"
    using a(1) n by (simp add: Cons_nth_drop_Suc [symmetric])
  also have "take (Suc m) (drop (Suc a) xs) = take m (drop (Suc a) xs) @ [drop (Suc a) xs ! m]"
    using a(2) by (simp add: take_Suc_conv_app_nth)
  also have "drop (Suc a) xs ! m = xs ! (a + n - 1)"
    using a(2) n by simp
  finally show ?thesis using n by simp
qed

lemma string_value:
  assumes "string s0 = Inr (t, s')" and "\<not> isAtEnd s0" and "start s0 = current s0"
  shows "\<exists>body. lexeme t = peek s0 # body @ [peek s0] \<and> value t = VString body \<and>
           type t = STRING \<and>
           lexeme t = substr (source s0) (start s') (current s' - start s')"
proof -
  let ?q = "peek s0"
  let ?s1 = "snd (advance s0)"
  let ?s2 = "string_loop ?q ?s1"
  have ne: "\<not> isAtEnd ?s2"
    using assms(1) by (cases "isAtEnd ?s2") (simp_all add: string_def Let_def)
  define s3 where "s3 = snd (advance ?s2)"
  have "string s0 = Inr (makeToken_value STRING
      (VString (substr (source s3) (start s3 + 1) (current s3 - start s3 - 2))) s3, s3)"
    using ne by (simp add: string_def Let_def s3_def)
  then have "Inr (t, s') = (Inr (makeToken_value STRING
      (VString (substr (source s3) (start s3 + 1) (current s3 - start s3 - 2))) s3, s3)
      :: LexError + Token \<times> Tokenizer)"
    using assms(1) by simp
  then have s3: "s' = s3"
    and t: "t = makeToken_value STRING
                 (VString (substr (source s') (start s' + 1) (current s' - start s' - 2))) s'"
    by simp_all
  have s': "s' = snd (advance ?s2)" using s3 s3_def by simp
  have e: "extends s0 ?s1" "extends ?s1 ?s2" "extends ?s2 s'"
    using advance_extends string_loop_extends s' by simp_all
  let ?a = "current s0"
  let ?n = "current s' - ?a"
  have src: "source s' = source s0" and st: "start s' = ?a"
    using e assms(3) by (simp_all add: extends_def)
  have c1: "current ?s1 = ?a + 1" using advance_current [OF assms(2)] .
  have c3: "current s' = current ?s2 + 1" using advance_current [OF ne] s' by simp
  have c2: "?a + 1 \<le> current ?s2" using e(2) c1 by (simp add: extends_def)
  have len: "current s' \<le> length (source s0)"
    using ne c3 e by (simp add: isAtEnd_def extends_def)
  have q_last: "source s0 ! current ?s2 = ?q"
    using string_loop_exit [of ?q ?s1] ne e by (simp add: peek_def extends_def)
  have q_first: "source s0 ! ?a = ?q" using assms(2) by (simp add: peek_def)
  have "take ?n (drop ?a (source s0)) =
        source s0 ! ?a # take (?n - 2) (drop (?a + 1) (source s0)) @ [source s0 ! (?a + ?n - 1)]"
    using len c2 c3 by (intro slice_between_quotes) simp_all
  moreover have "?a + ?n - 1 = current ?s2" using c2 c3 by simp
  ultimately have "take ?n (drop ?a (source s0)) =
        ?q # take (?n - 2) (drop (?a + 1) (source s0)) @ [?q]"
    using q_first q_last by simp
  then show ?thesis
    using t src st by (simp add: makeToken_value_def substr_def)
qed

lemma handleIndentation_type:
  assumes "handleIndentation s = Inr (t, s')"
  shows "type t = INDENT \<or> type t = DEDENT \<or> type t = NEWLINE"
proof -
  let ?sp = "count_indent (source s) (current s) 0 div 4"
  let ?tok = "\<lparr>type = DEDENT, lexeme = [], value = VMonostate,
               line = Tokenizer.line s, column = Tokenizer.column s\<rparr>"
  obtain st ds where dl: "dedent_loop ?sp ?tok (indent_stack s) [] = (st, ds)"
    by (cases "dedent_loop ?sp ?tok (indent_stack s) []")
  from dedent_loop_result [OF dl] obtain k where
    k: "ds = replicate k ?tok" "indent_stack s \<noteq> [] \<and> ?sp < last (indent_stack s) \<longrightarrow> 0 < k"
    by auto
  have "type (hd ds) = DEDENT" if "indent_stack s \<noteq> []" "?sp < last (indent_stack s)"
    using that k by (cases k) simp_all
  moreover have "type t = INDENT \<or> type t = NEWLINE \<or>
      (indent_stack s \<noteq> [] \<and> ?sp < last (indent_stack s) \<and> t = hd ds)"
    using assms dl
    by (auto simp: handleIndentation_def Let_def split: if_splits)
  ultimately show ?thesis by blast
qed

lemma number_type:
  "number stod s = Inr (t, s') \<Longrightarrow> type t = INTEGER \<or> type t = FLOAT"
  by (auto simp: number_def Let_def makeToken_value_def split: if_splits option.splits)

lemma keywords_map_types:
  "map_of keywords_map text = Some ty \<Longrightarrow> ty \<noteq> STRING \<and> ty \<noteq> EOF_TOKEN"
  by (auto simp: keywords_map_def split: if_splits)

lemma type_makeToken [simp]: "type (makeToken ty s) = ty"
  by (simp add: makeToken_def)

lemma type_makeToken_value [simp]: "type (makeToken_value ty v s) = ty"
  by (simp add: makeToken_value_def)

lemma identifier_tok_type:
  assumes "identifier_tok s = (t, s')"
  shows "type t \<noteq> STRING \<and> type t \<noteq> EOF_TOKEN"
proof -
  let ?text = "substr (source (identifier_loop s)) (start (identifier_loop s))
                 (current (identifier_loop s) - start (identifier_loop s))"
  show ?thesis
  proof (cases "map_of keywords_map ?text")
    case None
    then show ?thesis
      using assms by (auto simp: identifier_tok_def Let_def split: if_splits)
  next
    case (Some ty)
    then have "type t = ty"
      using assms by (auto simp: identifier_tok_def Let_def)
    then show ?thesis using keywords_map_types [OF Some] by simp
  qed
qed

lemma operator_token_type:
  "operator_token c s = Inr (t, s') \<Longrightarrow> type t \<noteq> STRING \<and> type t \<noteq> EOF_TOKEN"
  by (auto simp: operator_token_def Let_def makeToken_def split: if_splits prod.splits)

text \<open>
  C10. Every STRING token that \<open>nextToken\<close> produces has as lexeme the source text from
  \<open>start\<close> to \<open>current\<close>, which is an opening quote, a body and the same quote again, and the
  stored value is exactly that body: the characters between the quotes, with nothing
  translated. A backslash and the character after it are therefore in the value verbatim.
\<close>

theorem string_token_value_verbatim:
  assumes "nextToken stod s = Inr (t, s')" and "type t = STRING"
  shows "\<exists>q body. (q = CHR 0x22 \<or> q = CHR 0x27) \<and>
           lexeme t = substr (source s) (start s') (current s' - start s') \<and>
           lexeme t = q # body @ [q] \<and> value t = VString body"
  using assms(1)
proof (cases rule: nextToken_cases)
  case eof
  then show ?thesis using assms(2) by simp
next
  case ind
  then show ?thesis using handleIndentation_type [OF ind] assms(2) by simp
next
  case com
  then show ?thesis using assms(2) by simp
next
  case str
  from string_value [OF str(1) str(2) rewound_frame(3)]
  obtain body where
    "lexeme t = peek (rewound s) # body @ [peek (rewound s)]" "value t = VString body"
    "lexeme t = substr (source (rewound s)) (start s') (current s' - start s')"
    by blast
  then have "(peek (rewound s) = CHR 0x22 \<or> peek (rewound s) = CHR 0x27) \<and>
      lexeme t = substr (source s) (start s') (current s' - start s') \<and>
      lexeme t = peek (rewound s) # body @ [peek (rewound s)] \<and> value t = VString body"
    using str(3) rewound_frame(1) [of s] by simp
  then show ?thesis by blast
next
  case num
  then show ?thesis using number_type [OF num] assms(2) by simp
next
  case idn
  then show ?thesis using identifier_tok_type [OF idn] assms(2) by simp
next
  case (opr c)
  then show ?thesis using operator_token_type [OF opr] assms(2) by simp
qed

text \<open>The six source characters \<open>"a\nb"\<close> (with a backslash and an \<open>n\<close>, not a newline)
  give a value of four characters.\<close>

lemma string_with_escape_token:
  "nextToken (\<lambda>_. None) (Tokenizer_init [CHR 0x22, CHR ''a'', CHR 0x5C, CHR ''n'', CHR ''b'', CHR 0x22]) =
   Inr (\<lparr>type = STRING, lexeme = [CHR 0x22, CHR ''a'', CHR 0x5C, CHR ''n'', CHR ''b'', CHR 0x22],
         value = VString [CHR ''a'', CHR 0x5C, CHR ''n'', CHR ''b''], line = 1, column = 0\<rparr>,
        \<lparr>source = [CHR 0x22, CHR ''a'', CHR 0x5C, CHR ''n'', CHR ''b'', CHR 0x22],
         current = 6, start = 0, line = 1, column = 6, indent_stack = [0]\<rparr>)"
  by code_simp

theorem string_token_value_verbatim_witness:
  "nextToken (\<lambda>_. None)
     (Tokenizer_init [CHR 0x22, CHR ''a'', CHR 0x5C, CHR ''n'', CHR ''b'', CHR 0x22]) =
   Inr (\<lparr>type = STRING, lexeme = [CHR 0x22, CHR ''a'', CHR 0x5C, CHR ''n'', CHR ''b'', CHR 0x22],
         value = VString [CHR ''a'', CHR 0x5C, CHR ''n'', CHR ''b''], line = 1, column = 0\<rparr>,
        \<lparr>source = [CHR 0x22, CHR ''a'', CHR 0x5C, CHR ''n'', CHR ''b'', CHR 0x22],
         current = 6, start = 0, line = 1, column = 6, indent_stack = [0]\<rparr>) \<and>
   (\<exists>q body. (q = CHR 0x22 \<or> q = CHR 0x27) \<and>
      [CHR 0x22, CHR ''a'', CHR 0x5C, CHR ''n'', CHR ''b'', CHR 0x22] = q # body @ [q] \<and>
      VString [CHR ''a'', CHR 0x5C, CHR ''n'', CHR ''b''] = VString body)"
  using string_token_value_verbatim [OF string_with_escape_token] string_with_escape_token
  by simp

subsection \<open>Dedenting by more than one level\<close>

definition two_level_dedent_source :: string where
  "two_level_dedent_source = ''a\<newline>    b\<newline>        c\<newline>d''"

text \<open>
  C2 fails on the code. In the source below the last line dedents from level 2 to level 0.
  \<open>handleIndentation\<close> pops both levels off the stack (\<open>[0, 1, 2]\<close> becomes \<open>[0]\<close>) and collects
  two DEDENT tokens in \<open>dedent_tokens\<close>, but returns only \<open>dedent_tokens[0]\<close>; the second one is
  dropped with the local vector, and the next call returns the identifier \<open>d\<close>.
\<close>

theorem two_level_dedent_emits_one_DEDENT:
  "map_option indent_stack (nextToken_calls (\<lambda>_. None) 5 (Tokenizer_init two_level_dedent_source))
     = Some [0, 1, 2] \<and>
   map_option indent_stack (nextToken_calls (\<lambda>_. None) 6 (Tokenizer_init two_level_dedent_source))
     = Some [0] \<and>
   map_sum id (map type) (tokenize_source (\<lambda>_. None) two_level_dedent_source) =
     Inr [IDENTIFIER, INDENT, IDENTIFIER, INDENT, IDENTIFIER, DEDENT, IDENTIFIER, EOF_TOKEN]"
  by code_simp

section \<open>Properties of the parser\<close>

text \<open>A source text is tokenized and the token vector is handed to a parser, whose
  \<open>expression\<close> or \<open>program\<close> method is called with the cursor at 0.\<close>

definition expression_of_source :: "nat \<Rightarrow> string \<Rightarrow> LexError + Expression parse_result" where
  "expression_of_source n src =
     (case tokenize_source (\<lambda>_. None) src of
        Inl e \<Rightarrow> Inl e
      | Inr tokens \<Rightarrow> Inr (expression n tokens 0))"

definition call_of_source :: "nat \<Rightarrow> string \<Rightarrow> LexError + Expression parse_result" where
  "call_of_source n src =
     (case tokenize_source (\<lambda>_. None) src of
        Inl e \<Rightarrow> Inl e
      | Inr tokens \<Rightarrow> Inr (call (expression n tokens) tokens n 0))"

definition program_of_source :: "nat \<Rightarrow> string \<Rightarrow> LexError + (ParseError + Program)" where
  "program_of_source n src =
     (case tokenize_source (\<lambda>_. None) src of
        Inl e \<Rightarrow> Inl e
      | Inr tokens \<Rightarrow> Inr (program tokens n))"

subsection \<open>Precedence and associativity\<close>

text \<open>The binary operator tokens of parser.cpp, each with the method whose loop matches it
  and the operator that the loop puts in the node it builds. The methods are numbered in the
  order in which they call each other: \<open>logicalOr\<close> 1, \<open>logicalAnd\<close> 2, \<open>equality\<close> 3,
  \<open>comparison\<close> 4, \<open>term\<close> 5, \<open>factor\<close> 6, \<open>power\<close> 7. No other token type is matched by the
  loop of one of these methods.\<close>

definition binary_operator :: "TokenType \<Rightarrow> (nat \<times> BinaryOperator) option" where
  "binary_operator ty =
     (case ty of
        OR \<Rightarrow> Some (1, BinOp_OR)
      | AND \<Rightarrow> Some (2, BinOp_AND)
      | EQUAL \<Rightarrow> Some (3, BinOp_EQUAL)
      | NOT_EQUAL \<Rightarrow> Some (3, BinOp_NOT_EQUAL)
      | LESS \<Rightarrow> Some (4, BinOp_LESS)
      | LESS_EQUAL \<Rightarrow> Some (4, BinOp_LESS_EQUAL)
      | GREATER \<Rightarrow> Some (4, BinOp_GREATER)
      | GREATER_EQUAL \<Rightarrow> Some (4, BinOp_GREATER_EQUAL)
      | PLUS \<Rightarrow> Some (5, BinOp_ADD)
      | MINUS \<Rightarrow> Some (5, BinOp_SUBTRACT)
      | MULTIPLY \<Rightarrow> Some (6, BinOp_MULTIPLY)
      | DIVIDE \<Rightarrow> Some (6, BinOp_DIVIDE)
      | FLOOR_DIVIDE \<Rightarrow> Some (6, BinOp_FLOOR_DIVIDE)
      | MODULO \<Rightarrow> Some (6, BinOp_MODULO)
      | POWER \<Rightarrow> Some (7, BinOp_POWER)
      | _ \<Rightarrow> None)"

text \<open>An INTEGER token that carries an integer is parsed by \<open>unary\<close> as a literal.\<close>

lemma unary_integer:
  assumes "cur < length tokens" "type (tokens ! cur) = INTEGER" "value (tokens ! cur) = VInt64 v"
  shows "unary r tokens (Suc n) cur = Inr (LiteralExpression (VInt64 v), Suc cur)"
  using assms
  by (simp add: primary_def Parser_match_def check_def Parser_isAtEnd_def Parser_peek_def
      Parser_advance_def previous_def getInteger_def)

text \<open>One iteration of the loop of each method: it goes on exactly when the current token is
  an operator of the method's own level, parses the right operand with the next method and
  makes the node built so far the left operand of the new node.\<close>

lemma power_loop_step:
  "power_loop r tokens (Suc n) e cur =
     (case binary_operator (type (tokens ! cur)) of
        Some (l, op) \<Rightarrow>
          if l = 7 \<and> cur < length tokens
          then (case unary r tokens n (Suc cur) of
                  Inl x \<Rightarrow> Inl x
                | Inr (right, cur') \<Rightarrow> power_loop r tokens n (BinaryExpression op e right) cur')
          else Inr (e, cur)
      | None \<Rightarrow> Inr (e, cur))"
  by (cases "type (tokens ! cur)")
     (simp_all add: binary_operator_def Parser_match_def check_def Parser_isAtEnd_def
        Parser_peek_def Parser_advance_def previous_def)

lemma factor_loop_step:
  "factor_loop r tokens (Suc n) e cur =
     (case binary_operator (type (tokens ! cur)) of
        Some (l, op) \<Rightarrow>
          if l = 6 \<and> cur < length tokens
          then (case power r tokens n (Suc cur) of
                  Inl x \<Rightarrow> Inl x
                | Inr (right, cur') \<Rightarrow> factor_loop r tokens n (BinaryExpression op e right) cur')
          else Inr (e, cur)
      | None \<Rightarrow> Inr (e, cur))"
  by (cases "type (tokens ! cur)")
     (simp_all add: binary_operator_def Parser_match_def check_def Parser_isAtEnd_def
        Parser_peek_def Parser_advance_def previous_def comparison_operator_def
        factor_operator_def split: sum.splits prod.splits)

lemma term_loop_step:
  "term_loop r tokens (Suc n) e cur =
     (case binary_operator (type (tokens ! cur)) of
        Some (l, op) \<Rightarrow>
          if l = 5 \<and> cur < length tokens
          then (case factor r tokens n (Suc cur) of
                  Inl x \<Rightarrow> Inl x
                | Inr (right, cur') \<Rightarrow> term_loop r tokens n (BinaryExpression op e right) cur')
          else Inr (e, cur)
      | None \<Rightarrow> Inr (e, cur))"
  by (cases "type (tokens ! cur)")
     (simp_all add: binary_operator_def Parser_match_def check_def Parser_isAtEnd_def
        Parser_peek_def Parser_advance_def previous_def comparison_operator_def
        factor_operator_def split: sum.splits prod.splits)

lemma comparison_loop_step:
  "comparison_loop r tokens (Suc n) e cur =
     (case binary_operator (type (tokens ! cur)) of
        Some (l, op) \<Rightarrow>
          if l = 4 \<and> cur < length tokens
          then (case term r tokens n (Suc cur) of
                  Inl x \<Rightarrow> Inl x
                | Inr (right, cur') \<Rightarrow> comparison_loop r tokens n (BinaryExpression op e right) cur')
          else Inr (e, cur)
      | None \<Rightarrow> Inr (e, cur))"
  by (cases "type (tokens ! cur)")
     (simp_all add: binary_operator_def Parser_match_def check_def Parser_isAtEnd_def
        Parser_peek_def Parser_advance_def previous_def comparison_operator_def
        factor_operator_def split: sum.splits prod.splits)

lemma equality_loop_step:
  "equality_loop r tokens (Suc n) e cur =
     (case binary_operator (type (tokens ! cur)) of
        Some (l, op) \<Rightarrow>
          if l = 3 \<and> cur < length tokens
          then (case comparison r tokens n (Suc cur) of
                  Inl x \<Rightarrow> Inl x
                | Inr (right, cur') \<Rightarrow> equality_loop r tokens n (BinaryExpression op e right) cur')
          else Inr (e, cur)
      | None \<Rightarrow> Inr (e, cur))"
  by (cases "type (tokens ! cur)")
     (simp_all add: binary_operator_def Parser_match_def check_def Parser_isAtEnd_def
        Parser_peek_def Parser_advance_def previous_def comparison_operator_def
        factor_operator_def split: sum.splits prod.splits)

lemma logicalAnd_loop_step:
  "logicalAnd_loop r tokens (Suc n) e cur =
     (case binary_operator (type (tokens ! cur)) of
        Some (l, op) \<Rightarrow>
          if l = 2 \<and> cur < length tokens
          then (case equality r tokens n (Suc cur) of
                  Inl x \<Rightarrow> Inl x
                | Inr (right, cur') \<Rightarrow> logicalAnd_loop r tokens n (BinaryExpression op e right) cur')
          else Inr (e, cur)
      | None \<Rightarrow> Inr (e, cur))"
  by (cases "type (tokens ! cur)")
     (simp_all add: binary_operator_def Parser_match_def check_def Parser_isAtEnd_def
        Parser_peek_def Parser_advance_def previous_def comparison_operator_def
        factor_operator_def split: sum.splits prod.splits)

lemma logicalOr_loop_step:
  "logicalOr_loop r tokens (Suc n) e cur =
     (case binary_operator (type (tokens ! cur)) of
        Some (l, op) \<Rightarrow>
          if l = 1 \<and> cur < length tokens
          then (case logicalAnd r tokens n (Suc cur) of
                  Inl x \<Rightarrow> Inl x
                | Inr (right, cur') \<Rightarrow> logicalOr_loop r tokens n (BinaryExpression op e right) cur')
          else Inr (e, cur)
      | None \<Rightarrow> Inr (e, cur))"
  by (cases "type (tokens ! cur)")
     (simp_all add: binary_operator_def Parser_match_def check_def Parser_isAtEnd_def
        Parser_peek_def Parser_advance_def previous_def comparison_operator_def
        factor_operator_def split: sum.splits prod.splits)

lemma binary_operator_level:
  "binary_operator ty = Some (l, op) \<Longrightarrow> l = 1 \<or> l = 2 \<or> l = 3 \<or> l = 4 \<or> l = 5 \<or> l = 6 \<or> l = 7"
  by (cases ty) (simp_all add: binary_operator_def)

lemmas loop_steps = power_loop_step factor_loop_step term_loop_step comparison_loop_step
  equality_loop_step logicalAnd_loop_step logicalOr_loop_step

lemmas level_defs = power_def factor_def term_def comparison_def equality_def logicalAnd_def
  logicalOr_def

text \<open>
  C4 (as amended). Let a token vector start with an integer literal \<open>a\<close>, a binary operator
  \<open>op1\<close>, an integer literal \<open>b\<close>, a binary operator \<open>op2\<close>, an integer literal \<open>c\<close> and a token that
  is no binary operator. Then \<open>Parser::expression\<close> returns, with the cursor on that sixth
  token, the node \<open>op1(a, op2(b, c))\<close> when the method of \<open>op2\<close> comes after the method of \<open>op1\<close>
  in the chain \<open>logicalOr\<close>, \<open>logicalAnd\<close>, \<open>equality\<close>, \<open>comparison\<close>, \<open>term\<close>, \<open>factor\<close>, \<open>power\<close>,
  and the node \<open>op2(op1(a, b), c)\<close> otherwise. So an operator of a later method binds
  tighter, and two operators of the same method group to the left, \<open>**\<close> like all the
  others: \<open>2 + 3 * 4\<close> parses to \<open>Add(Literal 2, Multiply(Literal 3, Literal 4))\<close>, and
  \<open>2 ** 3 ** 2\<close> parses to \<open>Power(Power(Literal 2, Literal 3), Literal 2)\<close>.
\<close>

theorem operators_group_by_level_and_to_the_left:
  assumes t0: "type t0 = INTEGER" "value t0 = VInt64 a"
    and t2: "type t2 = INTEGER" "value t2 = VInt64 b"
    and t4: "type t4 = INTEGER" "value t4 = VInt64 c"
    and t1: "binary_operator (type t1) = Some (l1, o1)"
    and t3: "binary_operator (type t3) = Some (l2, o2)"
    and t5: "binary_operator (type t5) = None"
  shows "expression (n + 4) (t0 # t1 # t2 # t3 # t4 # t5 # rest) 0 =
           Inr (if l1 < l2
                then BinaryExpression o1 (LiteralExpression (VInt64 a))
                       (BinaryExpression o2 (LiteralExpression (VInt64 b))
                          (LiteralExpression (VInt64 c)))
                else BinaryExpression o2
                       (BinaryExpression o1 (LiteralExpression (VInt64 a))
                          (LiteralExpression (VInt64 b)))
                       (LiteralExpression (VInt64 c)), 5)"
proof -
  define tokens where "tokens = t0 # t1 # t2 # t3 # t4 # t5 # rest"
  define r where "r = expression (Suc (Suc (Suc n))) tokens"
  have ops: "binary_operator (type (tokens ! 0)) = None"
    "binary_operator (type (tokens ! Suc 0)) = Some (l1, o1)"
    "binary_operator (type (tokens ! Suc (Suc 0))) = None"
    "binary_operator (type (tokens ! Suc (Suc (Suc 0)))) = Some (l2, o2)"
    "binary_operator (type (tokens ! Suc (Suc (Suc (Suc 0))))) = None"
    "binary_operator (type (tokens ! Suc (Suc (Suc (Suc (Suc 0)))))) = None"
    using t0 t1 t2 t3 t4 t5 by (simp_all add: tokens_def binary_operator_def)
  have len: "Suc 0 < length tokens" "Suc (Suc (Suc 0)) < length tokens"
    by (simp_all add: tokens_def)
  have u0: "unary r tokens (Suc m) 0 = Inr (LiteralExpression (VInt64 a), Suc 0)" for m
    using t0 by (intro unary_integer) (simp_all add: tokens_def)
  have u2: "unary r tokens (Suc m) (Suc (Suc 0)) =
              Inr (LiteralExpression (VInt64 b), Suc (Suc (Suc 0)))" for m
    using t2 by (intro unary_integer) (simp_all add: tokens_def)
  have u4: "unary r tokens (Suc m) (Suc (Suc (Suc (Suc 0)))) =
              Inr (LiteralExpression (VInt64 c), Suc (Suc (Suc (Suc (Suc 0)))))" for m
    using t4 by (intro unary_integer) (simp_all add: tokens_def)
  have five: "(5::nat) = Suc (Suc (Suc (Suc (Suc 0))))"
    by simp
  have grouped: "logicalOr r tokens (Suc (Suc (Suc n))) 0 =
           Inr (if l1 < l2
                then BinaryExpression o1 (LiteralExpression (VInt64 a))
                       (BinaryExpression o2 (LiteralExpression (VInt64 b))
                          (LiteralExpression (VInt64 c)))
                else BinaryExpression o2
                       (BinaryExpression o1 (LiteralExpression (VInt64 a))
                          (LiteralExpression (VInt64 b)))
                       (LiteralExpression (VInt64 c)), 5)"
    using binary_operator_level [OF t1] binary_operator_level [OF t3]
    unfolding five
    by (elim disjE)
       (simp_all add: level_defs loop_steps ops len u0 u2 u4
          del: unary.simps power_loop.simps factor_loop.simps term_loop.simps
            comparison_loop.simps equality_loop.simps logicalAnd_loop.simps
            logicalOr_loop.simps)
  have fuel: "n + 4 = Suc (Suc (Suc (Suc n)))"
    by simp
  have "expression (n + 4) tokens 0 = logicalOr r tokens (Suc (Suc (Suc n))) 0"
    unfolding fuel r_def by (simp only: expression.simps)
  from this grouped show ?thesis
    unfolding tokens_def by (rule trans)
qed

text \<open>The two expressions of the specification, tokenized and parsed.\<close>

theorem operators_group_by_level_and_to_the_left_witness:
  "binary_operator PLUS = Some (5, BinOp_ADD) \<and>
   binary_operator MULTIPLY = Some (6, BinOp_MULTIPLY) \<and>
   binary_operator POWER = Some (7, BinOp_POWER) \<and>
   binary_operator EOF_TOKEN = None \<and>
   expression_of_source 20 ''2 + 3 * 4'' =
     Inr (Inr (BinaryExpression BinOp_ADD (LiteralExpression (VInt64 2))
                 (BinaryExpression BinOp_MULTIPLY (LiteralExpression (VInt64 3))
                    (LiteralExpression (VInt64 4))), 5)) \<and>
   expression_of_source 20 ''2 ** 3 ** 2'' =
     Inr (Inr (BinaryExpression BinOp_POWER
                 (BinaryExpression BinOp_POWER (LiteralExpression (VInt64 2))
                    (LiteralExpression (VInt64 3)))
                 (LiteralExpression (VInt64 2)), 5))"
proof -
  have sum_tokens: "tokenize_source (\<lambda>_. None) ''2 + 3 * 4'' =
    Inr [\<lparr>type = INTEGER, lexeme = ''2'', value = VInt64 2, line = 1, column = 0\<rparr>,
         \<lparr>type = PLUS, lexeme = ''+'', value = VMonostate, line = 1, column = 2\<rparr>,
         \<lparr>type = INTEGER, lexeme = ''3'', value = VInt64 3, line = 1, column = 4\<rparr>,
         \<lparr>type = MULTIPLY, lexeme = ''*'', value = VMonostate, line = 1, column = 6\<rparr>,
         \<lparr>type = INTEGER, lexeme = ''4'', value = VInt64 4, line = 1, column = 8\<rparr>,
         \<lparr>type = EOF_TOKEN, lexeme = [], value = VMonostate, line = 1, column = 9\<rparr>]"
    by code_simp
  have power_tokens: "tokenize_source (\<lambda>_. None) ''2 ** 3 ** 2'' =
    Inr [\<lparr>type = INTEGER, lexeme = ''2'', value = VInt64 2, line = 1, column = 0\<rparr>,
         \<lparr>type = POWER, lexeme = ''**'', value = VMonostate, line = 1, column = 2\<rparr>,
         \<lparr>type = INTEGER, lexeme = ''3'', value = VInt64 3, line = 1, column = 5\<rparr>,
         \<lparr>type = POWER, lexeme = ''**'', value = VMonostate, line = 1, column = 7\<rparr>,
         \<lparr>type = INTEGER, lexeme = ''2'', value = VInt64 2, line = 1, column = 10\<rparr>,
         \<lparr>type = EOF_TOKEN, lexeme = [], value = VMonostate, line = 1, column = 11\<rparr>]"
    by code_simp
  have ops: "binary_operator PLUS = Some (5, BinOp_ADD)"
    "binary_operator MULTIPLY = Some (6, BinOp_MULTIPLY)"
    "binary_operator POWER = Some (7, BinOp_POWER)"
    "binary_operator EOF_TOKEN = None"
    by (simp_all add: binary_operator_def)
  show ?thesis
    using operators_group_by_level_and_to_the_left
      [where ?t0.0 = "\<lparr>type = INTEGER, lexeme = ''2'', value = VInt64 2, line = 1, column = 0\<rparr>"
         and a = 2
         and ?t1.0 = "\<lparr>type = PLUS, lexeme = ''+'', value = VMonostate, line = 1, column = 2\<rparr>"
         and ?l1.0 = 5 and ?o1.0 = BinOp_ADD
         and ?t2.0 = "\<lparr>type = INTEGER, lexeme = ''3'', value = VInt64 3, line = 1, column = 4\<rparr>"
         and b = 3
         and ?t3.0 = "\<lparr>type = MULTIPLY, lexeme = ''*'', value = VMonostate, line = 1, column = 6\<rparr>"
         and ?l2.0 = 6 and ?o2.0 = BinOp_MULTIPLY
         and ?t4.0 = "\<lparr>type = INTEGER, lexeme = ''4'', value = VInt64 4, line = 1, column = 8\<rparr>"
         and c = 4
         and ?t5.0 = "\<lparr>type = EOF_TOKEN, lexeme = [], value = VMonostate, line = 1, column = 9\<rparr>"
         and rest = "[]" and n = 16]
      operators_group_by_level_and_to_the_left
      [where ?t0.0 = "\<lparr>type = INTEGER, lexeme = ''2'', value = VInt64 2, line = 1, column = 0\<rparr>"
         and a = 2
         and ?t1.0 = "\<lparr>type = POWER, lexeme = ''**'', value = VMonostate, line = 1, column = 2\<rparr>"
         and ?l1.0 = 7 and ?o1.0 = BinOp_POWER
         and ?t2.0 = "\<lparr>type = INTEGER, lexeme = ''3'', value = VInt64 3, line = 1, column = 5\<rparr>"
         and b = 3
         and ?t3.0 = "\<lparr>type = POWER, lexeme = ''**'', value = VMonostate, line = 1, column = 7\<rparr>"
         and ?l2.0 = 7 and ?o2.0 = BinOp_POWER
         and ?t4.0 = "\<lparr>type = INTEGER, lexeme = ''2'', value = VInt64 2, line = 1, column = 10\<rparr>"
         and c = 2
         and ?t5.0 = "\<lparr>type = EOF_TOKEN, lexeme = [], value = VMonostate, line = 1, column = 11\<rparr>"
         and rest = "[]" and n = 16]
    by (simp add: ops expression_of_source_def sum_tokens power_tokens)
qed

text \<open>The right-associative reading of \<open>2 ** 3 ** 2\<close>, \<open>Power(Literal 2, Power(Literal 3,
  Literal 2))\<close>, is not what the parser returns.\<close>

theorem power_not_right_associative:
  "expression_of_source 20 ''2 ** 3 ** 2'' \<noteq>
     Inr (Inr (BinaryExpression BinOp_POWER (LiteralExpression (VInt64 2))
                 (BinaryExpression BinOp_POWER (LiteralExpression (VInt64 3))
                    (LiteralExpression (VInt64 2))), 5))"
  by code_simp

subsection \<open>Calls\<close>

definition end_to_end_source :: string where
  "end_to_end_source = ''def f(n):\<newline>    return n + 1\<newline>result = f(4)''"

text \<open>
  C1 fails on the code. \<open>Parser::unary\<close> calls \<open>primary\<close>, not \<open>call\<close>, so the postfix chain is
  never entered: on the tokens of \<open>f(4)\<close> the method \<open>expression\<close> returns the identifier \<open>f\<close>
  alone and leaves the cursor on the left parenthesis (index 1). \<open>Parser::call\<close> itself, started
  on the same tokens, does build the call node, with the cursor on EOF (index 4). The
  end-to-end source does not parse at all: \<open>block\<close> meets the INDENT token (line 2, column 0)
  that opens the body of \<open>f\<close> and \<open>primary\<close> throws.
\<close>

theorem call_is_not_parsed:
  "expression_of_source 20 ''f(4)'' = Inr (Inr (IdentifierExpression ''f'', 1)) \<and>
   call_of_source 20 ''f(4)'' =
     Inr (Inr (CallExpression (IdentifierExpression ''f'') [LiteralExpression (VInt64 4)], 4)) \<and>
   program_of_source 20 end_to_end_source =
     Inr (Inl (ErrorAt 2 0 ''Expect expression.''))"
  by code_simp

subsection \<open>The if statement\<close>

definition if_elif_else_source :: string where
  "if_elif_else_source = ''if a: x = 1\<newline>elif b: x = 2\<newline>else: x = 3''"

text \<open>
  C3 fails on the code. After \<open>match(IF)\<close>, \<open>ifStatement\<close> consumes a colon before it parses the
  condition, so the source of the claim is rejected at the identifier \<open>a\<close> (line 1, column 3)
  with the message of that \<open>consume\<close>; \<open>Parser::parse\<close> returns the null pointer.
\<close>

theorem if_statement_is_rejected:
  "program_of_source 20 if_elif_else_source =
     Inr (Inl (ErrorAt 1 3 ''Expect ':' after if condition.''))"
  by code_simp

section \<open>Properties of the code generator\<close>

lemma emit_fields [simp]:
  "fst (emit i c) = InstructionValue (length (instructions c))"
  "instructions (snd (emit i c)) = instructions c @ [(insert_point c, i)]"
  "variables (snd (emit i c)) = variables c"
  "insert_point (snd (emit i c)) = insert_point c"
  "module_functions (snd (emit i c)) = module_functions c"
  by (simp_all add: emit_def)

lemma emit_module_functions_update:
  "emit i (c\<lparr>module_functions := fs\<rparr>) = (fst (emit i c), (snd (emit i c))\<lparr>module_functions := fs\<rparr>)"
  by (simp add: emit_def)

subsection \<open>Logical operators\<close>

definition branches :: "Compiler \<Rightarrow> Instruction list" where
  "branches c = filter isBranch (map snd (instructions c))"

lemma branches_emit: "\<not> isBranch i \<Longrightarrow> branches (snd (emit i c)) = branches c"
  by (simp add: branches_def)

lemma binary_instruction_no_branch: "binary_instruction op l r = Some i \<Longrightarrow> \<not> isBranch i"
  by (cases op) auto

lemma compileLiteralExpression_branches:
  "branches (snd (compileLiteralExpression v c)) = branches c"
  by (cases v) (simp_all add: compileLiteralExpression_def branches_def)

lemma compileIdentifierExpression_branches:
  "branches (snd (compileIdentifierExpression name c)) = branches c"
  by (simp add: compileIdentifierExpression_def branches_emit case_prod_beta split: option.splits)

lemma compile_no_branch:
  "branches (snd (compileExpression e c)) = branches c"
  "branches (snd (compileArguments es c)) = branches c"
proof (induction e c and es c rule: compileExpression_compileArguments.induct)
  case (3 op l r c)
  obtain left c1 where l: "compileExpression l c = (left, c1)" by (cases "compileExpression l c")
  obtain right c2 where r: "compileExpression r c1 = (right, c2)"
    by (cases "compileExpression r c1")
  have b: "branches c2 = branches c" using "3.IH"(1) "3.IH"(2) [OF refl l [symmetric]] l r by simp
  show ?case
    using l r b binary_instruction_no_branch
    by (auto simp: case_prod_beta branches_emit split: option.splits)
next
  case (4 op e c)
  obtain operand c1 where e: "compileExpression e c = (operand, c1)"
    by (cases "compileExpression e c")
  have b: "branches c1 = branches c" using "4.IH" e by simp
  show ?case
    using e b by (auto simp: case_prod_beta branches_emit split: option.splits UnaryOperator.splits)
next
  case (5 callee arguments c)
  obtain cv c1 where e: "compileExpression callee c = (cv, c1)"
    by (cases "compileExpression callee c")
  have b1: "branches c1 = branches c" using "5.IH"(1) e by simp
  show ?case
  proof (cases cv)
    case None
    then show ?thesis using e b1 by simp
  next
    case (Some v)
    obtain args c2 where a: "compileArguments arguments c1 = (args, c2)"
      by (cases "compileArguments arguments c1")
    have "branches c2 = branches c1" using "5.IH"(2) [OF refl e [symmetric] Some] a by simp
    then show ?thesis using e Some a b1 by (simp add: case_prod_beta branches_emit)
  qed
next
  case (12 arg rest c)
  obtain v c1 where e: "compileExpression arg c = (v, c1)" by (cases "compileExpression arg c")
  have b1: "branches c1 = branches c" using "12.IH"(1) e by simp
  have "branches (snd (compileArguments rest c1)) = branches c1"
    using "12.IH"(2) [OF refl e [symmetric]] by simp
  then show ?case using e b1 by (simp add: case_prod_beta)
qed (simp_all add: compileLiteralExpression_branches compileIdentifierExpression_branches)

text \<open>
  C5 (as amended). For every binary expression whose operator is \<open>and\<close> or \<open>or\<close>, the code
  generator lowers the left operand and then the right operand, both unconditionally;
  it creates no instruction for the operator and no branch, and the result is the null
  pointer.
\<close>

theorem logical_operators_lower_both_operands:
  assumes "op = BinOp_AND \<or> op = BinOp_OR"
  shows "compileExpression (BinaryExpression op l r) c =
           (None, snd (compileExpression r (snd (compileExpression l c)))) \<and>
         branches (snd (compileExpression (BinaryExpression op l r) c)) = branches c"
proof -
  have "binary_instruction op lv rv = None" for lv rv using assms by auto
  then have "compileExpression (BinaryExpression op l r) c =
           (None, snd (compileExpression r (snd (compileExpression l c))))"
    by (simp add: case_prod_beta split: option.splits)
  then show ?thesis using compile_no_branch(1) by simp
qed

text \<open>The expression \<open>False and g()\<close>, lowered at the start of \<open>main\<close>.\<close>

definition false_and_call :: Expression where
  "false_and_call =
     BinaryExpression BinOp_AND (LiteralExpression (VBool False))
       (CallExpression (IdentifierExpression ''g'') [])"

definition main_entry_state :: Compiler where
  "main_entry_state = createMainFunction (setupStandardLibrary Compiler_init)"

lemma false_and_call_lowering:
  "fst (compileExpression false_and_call main_entry_state) = None \<and>
   instructions (snd (compileExpression false_and_call main_entry_state)) =
     [(Some 1, CreateCall (ConstantInt 64 0) [])]"
  by code_simp

theorem logical_operators_lower_both_operands_witness:
  "(BinOp_AND = BinOp_AND \<or> BinOp_AND = BinOp_OR) \<and>
   fst (compileExpression false_and_call main_entry_state) = None \<and>
   instructions (snd (compileExpression false_and_call main_entry_state)) =
     [(Some 1, CreateCall (ConstantInt 64 0) [])] \<and>
   branches (snd (compileExpression false_and_call main_entry_state)) =
     branches main_entry_state"
proof -
  have "branches (snd (compileExpression false_and_call main_entry_state)) =
        branches main_entry_state"
    unfolding false_and_call_def
    using logical_operators_lower_both_operands
      [of BinOp_AND "LiteralExpression (VBool False)"
        "CallExpression (IdentifierExpression ''g'') []" main_entry_state]
    by blast
  then show ?thesis using false_and_call_lowering by blast
qed

text \<open>Short-circuit lowering, as C5 states it, would guard the call of \<open>g\<close> by a conditional
  branch on the left operand. The code generator creates the call and no branch.\<close>

theorem and_emits_no_conditional_branch:
  "fst (compileExpression false_and_call main_entry_state) = None \<and>
   map snd (instructions (snd (compileExpression false_and_call main_entry_state))) =
     [CreateCall (ConstantInt 64 0) []] \<and>
   filter isBranch
     (map snd (instructions (snd (compileExpression false_and_call main_entry_state)))) = []"
  by code_simp

subsection \<open>Calls\<close>





lemma compileArguments_length: "length (fst (compileArguments es c)) \<le> length es"
proof (induction es arbitrary: c)
  case Nil
  then show ?case by simp
next
  case (Cons a es)
  have "length (fst (compileArguments es (snd (compileExpression a c)))) \<le> length es"
    using Cons.IH .
  then show ?case by (auto simp: case_prod_beta split: option.splits)
qed

text \<open>The value that \<open>compileCallExpression\<close> calls when the callee is the identifier \<open>f\<close>:
  the load of the stack slot of a variable \<open>f\<close>, or the constant \<open>i64 0\<close> when there is no such
  variable.\<close>

definition callee_value :: "Compiler \<Rightarrow> string \<Rightarrow> Value" where
  "callee_value c f =
     (case variables c f of
        Some slot \<Rightarrow> InstructionValue (length (instructions c))
      | None \<Rightarrow> ConstantInt 64 0)"








subsection \<open>The symbol table\<close>

lemma compile_variables:
  "variables (snd (compileExpression e c)) = variables c"
  "variables (snd (compileArguments es c)) = variables c"
proof (induction e c and es c rule: compileExpression_compileArguments.induct)
  case (1 v c)
  then show ?case by (cases v) (simp_all add: compileLiteralExpression_def)
next
  case (2 name c)
  then show ?case
    by (simp add: compileIdentifierExpression_def case_prod_beta split: option.splits)
next
  case (3 op l r c)
  then show ?case
    by (cases "compileExpression l c"; cases "compileExpression r (snd (compileExpression l c))")
       (auto simp: case_prod_beta split: option.splits)
next
  case (4 op e c)
  then show ?case
    by (cases "compileExpression e c")
       (auto simp: case_prod_beta split: option.splits UnaryOperator.splits)
next
  case (5 callee arguments c)
  then show ?case
    by (cases "compileExpression callee c")
       (auto simp: case_prod_beta split: option.splits)
next
  case (12 arg rest c)
  then show ?case
    by (cases "compileExpression arg c") (auto simp: case_prod_beta)
qed simp_all

lemma compileStatement_keeps_binding:
  assumes "variables c x = Some slot"
  shows "variables (compileStatement st c) x = Some slot"
proof (cases st)
  case (AssignmentStatement name e)
  have v: "variables (snd (compileExpression e c)) = variables c"
    by (rule compile_variables(1))
  show ?thesis
    using assms v unfolding AssignmentStatement
    by (cases "name = x")
       (auto simp: compileAssignmentStatement_def case_prod_beta Let_def split: option.splits)
next
  case (ExpressionStatement e)
  then show ?thesis using assms by (simp add: compile_variables(1))
next
  case (ReturnStatement val)
  then show ?thesis
    using assms
    by (cases val) (simp_all add: compileReturnStatement_def case_prod_beta compile_variables(1))
qed (simp_all add: assms)

lemma fold_compileStatement_keeps_binding:
  "variables c x = Some slot \<Longrightarrow> variables (fold compileStatement body c) x = Some slot"
  by (induction body arbitrary: c) (simp_all add: compileStatement_keeps_binding)

lemma store_parameters_other:
  "x \<notin> set ps \<Longrightarrow> variables (store_parameters f i ps c) x = variables c x"
  by (induction ps arbitrary: i c) (auto simp: case_prod_beta Let_def)

lemma store_parameters_bound:
  "p \<in> set ps \<Longrightarrow> \<exists>slot. variables (store_parameters f i ps c) p = Some slot"
proof (induction ps arbitrary: i c)
  case Nil
  then show ?case by simp
next
  case (Cons a ps)
  show ?case
  proof (cases "p \<in> set ps")
    case True
    then show ?thesis using Cons.IH by (simp add: case_prod_beta Let_def)
  next
    case False
    then have "p = a" using Cons.prems by simp
    then show ?thesis using False by (simp add: case_prod_beta Let_def store_parameters_other)
  qed
qed

lemma function_prologue_variables:
  "x \<notin> set parameters \<Longrightarrow>
   variables (snd (function_prologue name parameters c)) x = variables c x"
  by (simp add: function_prologue_def Function_Create_def store_parameters_other)

lemma function_prologue_parameters:
  "p \<in> set parameters \<Longrightarrow>
   \<exists>slot. variables (snd (function_prologue name parameters c)) p = Some slot"
  using store_parameters_bound by (simp add: function_prologue_def Function_Create_def)

lemma compileFunctionDeclaration_variables:
  "variables (compileFunctionDeclaration name parameters body c) =
   variables (fold compileStatement body (snd (function_prologue name parameters c)))"
  by (simp add: compileFunctionDeclaration_def case_prod_beta Let_def)

text \<open>
  C7 (as amended). The symbol table is one map for the whole compilation and is never
  cleared. A name that is bound when a function declaration is lowered, and that is not one
  of the function's parameters, is bound to the same stack slot when the lowering of the body
  starts and when the declaration is finished; the parameters of the function are bound
  afterwards too.
\<close>

theorem symbol_table_is_shared_by_all_functions:
  assumes "variables c x = Some slot" and "x \<notin> set parameters"
  shows "variables (snd (function_prologue name parameters c)) x = Some slot \<and>
         variables (compileFunctionDeclaration name parameters body c) x = Some slot \<and>
         set parameters \<subseteq> dom (variables (compileFunctionDeclaration name parameters body c))"
proof -
  have a: "variables (snd (function_prologue name parameters c)) x = Some slot"
    using assms function_prologue_variables by simp
  then have b: "variables (compileFunctionDeclaration name parameters body c) x = Some slot"
    by (simp add: compileFunctionDeclaration_variables fold_compileStatement_keeps_binding)
  have "p \<in> dom (variables (compileFunctionDeclaration name parameters body c))"
    if p: "p \<in> set parameters" for p
  proof -
    obtain s where "variables (snd (function_prologue name parameters c)) p = Some s"
      using function_prologue_parameters [OF p] by blast
    then show ?thesis
      by (auto simp: compileFunctionDeclaration_variables
          dest: fold_compileStatement_keeps_binding)
  qed
  then show ?thesis using a b by blast
qed

text \<open>The program \<open>def f(n): return n\<close> followed by \<open>def g(): return n\<close>. While the body of
  \<open>g\<close> is lowered, \<open>n\<close> is the stack slot of the parameter of \<open>f\<close> (instruction 0): \<open>g\<close> loads
  from it, where a fresh scope would give the default \<open>i64 0\<close>.\<close>

definition f_then_g :: "Declaration list" where
  "f_then_g =
     [FunctionDeclaration ''f'' [''n'']
        [ReturnStatement (Some (IdentifierExpression ''n''))] False,
      FunctionDeclaration ''g'' []
        [ReturnStatement (Some (IdentifierExpression ''n''))] False]"

definition after_f :: Compiler where
  "after_f =
     compileFunctionDeclaration ''f'' [''n'']
       [ReturnStatement (Some (IdentifierExpression ''n''))] main_entry_state"

lemma after_f_binds_n: "variables after_f ''n'' = Some (InstructionValue 0)"
  by code_simp

theorem name_of_one_function_visible_in_next:
  "variables (snd (function_prologue ''g'' [] after_f)) ''n'' = Some (InstructionValue 0) \<and>
   instructions (fold compileDeclaration f_then_g main_entry_state) =
     [(Some 2, CreateAlloca (Ty Int64Ty) ''n''),
      (Some 2, CreateStore (Argument 2 0) (InstructionValue 0)),
      (Some 2, CreateLoad Int64Ty (InstructionValue 0)),
      (Some 2, CreateRet (Some (InstructionValue 2))),
      (Some 3, CreateLoad Int64Ty (InstructionValue 0)),
      (Some 3, CreateRet (Some (InstructionValue 4)))]"
  by code_simp

theorem symbol_table_is_shared_by_all_functions_witness:
  "variables after_f ''n'' = Some (InstructionValue 0) \<and> ''n'' \<notin> set ([] :: string list) \<and>
   variables (snd (function_prologue ''g'' [] after_f)) ''n'' = Some (InstructionValue 0) \<and>
   variables (compileFunctionDeclaration ''g'' []
      [ReturnStatement (Some (IdentifierExpression ''n''))] after_f) ''n'' =
     Some (InstructionValue 0)"
  using symbol_table_is_shared_by_all_functions
    [OF after_f_binds_n, of "[]" "''g''" "[ReturnStatement (Some (IdentifierExpression ''n''))]"]
    after_f_binds_n
  by simp

end
